theory Spec2Isabelle
  imports Main "HOL-Library.Sublist"
begin

section \<open>JavaScript values\<close>

text \<open>
  A JavaScript string is a sequence of UTF-16 code units. The model is \<open>string\<close>
  (a list of \<open>char\<close>), one \<open>char\<close> per code unit, and so covers the code units
  below 256 (ASCII and Latin-1). Numbers that the plugin uses as epoch milliseconds,
  counters and limits are integers.
\<close>

definition isWhiteSpace :: "char \<Rightarrow> bool" where
  \<comment> \<open>The regular expression class \<open>\s\<close> and the characters \<open>trim()\<close> strips: TAB, LF,
      VT, FF, CR, SPACE and NBSP.\<close>
  "isWhiteSpace c =
     (c = CHR 0x09 \<or> c = CHR 0x0A \<or> c = CHR 0x0B \<or> c = CHR 0x0C \<or> c = CHR 0x0D \<or>
      c = CHR 0x20 \<or> c = CHR 0xA0)"

definition isLineTerminator :: "char \<Rightarrow> bool" where
  \<comment> \<open>The characters that the regular expression \<open>.\<close> does not match.\<close>
  "isLineTerminator c = (c = CHR 0x0A \<or> c = CHR 0x0D)"

definition toLowerChar :: "char \<Rightarrow> char" where
  \<comment> \<open>The upper-case letters below 256 are \<open>A\<close> to \<open>Z\<close> (65 to 90) and the Latin-1
      letters 192 to 222 without the multiplication sign 215; each has its lower-case
      form 32 above it.\<close>
  "toLowerChar c =
     (let n = (of_char c :: nat)
      in if (65 \<le> n \<and> n \<le> 90) \<or> (192 \<le> n \<and> n \<le> 222 \<and> n \<noteq> 215)
         then char_of (n + 32) else c)"

definition toLowerCase :: "string \<Rightarrow> string" where
  \<comment> \<open>\<open>String.prototype.toLowerCase\<close>, one code unit at a time.\<close>
  "toLowerCase s = map toLowerChar s"

definition startsWith :: "string \<Rightarrow> string \<Rightarrow> bool" where
  \<comment> \<open>\<open>s.startsWith(p)\<close>\<close>
  "startsWith s p = prefix p s"

definition includesStr :: "string \<Rightarrow> string \<Rightarrow> bool" where
  \<comment> \<open>\<open>s.includes(t)\<close> on strings: \<open>t\<close> occurs in \<open>s\<close> as a contiguous run.\<close>
  "includesStr s t = sublist t s"

definition trim :: "string \<Rightarrow> string" where
  \<comment> \<open>\<open>String.prototype.trim\<close>\<close>
  "trim s = rev (dropWhile isWhiteSpace (rev (dropWhile isWhiteSpace s)))"

fun splitLines :: "string \<Rightarrow> string list" where
  \<comment> \<open>\<open>text.split("\n")\<close>: never empty, the empty text gives one empty line.\<close>
  "splitLines [] = [[]]"
| "splitLines (c # cs) =
     (if c = CHR 0x0A then [] # splitLines cs
      else (case splitLines cs of
              [] \<Rightarrow> [[c]]
            | l # ls \<Rightarrow> (c # l) # ls))"

fun joinWith :: "string \<Rightarrow> string list \<Rightarrow> string" where
  \<comment> \<open>\<open>parts.join(sep)\<close>\<close>
  "joinWith sep [] = []"
| "joinWith sep [l] = l"
| "joinWith sep (l # m # ls) = l @ sep @ joinWith sep (m # ls)"

definition sliceFrom :: "int \<Rightarrow> 'a list \<Rightarrow> 'a list" where
  \<comment> \<open>\<open>xs.slice(start)\<close>: a negative start counts from the end, and both are clamped
      to the array.\<close>
  "sliceFrom start xs =
     (let len = int (length xs);
          k = (if start < 0 then max (len + start) 0 else min start len)
      in drop (nat k) xs)"

text \<open>
  What a \<open>throw\<close> or a rejected promise carries. A \<open>catch\<close> block of the plugin takes a
  text from it with \<open>err instanceof Error ? err.message : String(err)\<close>. For a value
  that is not an \<open>Error\<close> the conversion \<open>String(err)\<close> runs the value's own
  \<open>toString\<close>, and for a value without a usable one (\<open>Object.create(null)\<close>, or an
  object whose \<open>toString\<close> throws) the conversion itself throws.
\<close>

datatype js_error =
    JsError string      \<comment> \<open>an \<open>Error\<close> object, with its \<open>message\<close>\<close>
  | JsThrown string     \<comment> \<open>another thrown value, with the text that \<open>String(err)\<close> gives\<close>
  | JsOpaque js_error   \<comment> \<open>another thrown value, on which \<open>String(err)\<close> throws the given error\<close>

section \<open>The durable state store (\<open>state.ts\<close>)\<close>

record ProcessedMessageStore =
  processedIds :: "string list"
  rateLimits :: "string \<rightharpoonup> int list"
  lastPollTime :: "int option"

definition MAX_PROCESSED_IDS :: nat where
  "MAX_PROCESSED_IDS = 10000"

definition RATE_LIMIT_WINDOW_MS :: int where
  "RATE_LIMIT_WINDOW_MS = 60 * 60 * 1000"

datatype state_file =
    NoFile                          \<comment> \<open>\<open>state.json\<close> does not exist\<close>
  | Corrupt                         \<comment> \<open>it exists and \<open>JSON.parse\<close> throws on it\<close>
  | Holds ProcessedMessageStore     \<comment> \<open>it holds the JSON text of a store\<close>

text \<open>
  The process state that \<open>state.ts\<close> reads and writes: the module variable
  \<open>stateCache\<close>, the file \<open>state.json\<close>, and two counters that make the effects
  observable: how many times the environment has been read (\<open>Date.now()\<close> here, and
  \<open>Math.random()\<close> in \<open>smtp.ts\<close>) and how many times the file has been written.
  The clock is an oracle: \<open>clock k\<close> is what \<open>Date.now()\<close> returns when it is read
  number \<open>k\<close>. Creating the directory and writing the file are taken to succeed, and
  the file, when it parses, holds a store of the declared shape.
\<close>

record store_state =
  stateCache :: "ProcessedMessageStore option"
  stateFile :: state_file
  ticks :: nat
  fileWrites :: nat

definition dateNow :: "(nat \<Rightarrow> int) \<Rightarrow> 'a store_state_scheme \<Rightarrow> int \<times> 'a store_state_scheme" where
  "dateNow clock w = (clock (ticks w), w\<lparr>ticks := Suc (ticks w)\<rparr>)"

definition emptyStore :: ProcessedMessageStore where
  "emptyStore = \<lparr>processedIds = [], rateLimits = Map.empty, lastPollTime = None\<rparr>"

definition loadState :: "'a store_state_scheme \<Rightarrow> ProcessedMessageStore \<times> 'a store_state_scheme" where
  "loadState w =
     (case stateCache w of
        Some s \<Rightarrow> (s, w)
      | None \<Rightarrow>
          (case stateFile w of
             Holds s \<Rightarrow> (s, w\<lparr>stateCache := Some s\<rparr>)
           | _ \<Rightarrow> (emptyStore, w\<lparr>stateCache := Some emptyStore\<rparr>)))"

definition withinWindow :: "int \<Rightarrow> int \<Rightarrow> bool" where
  \<comment> \<open>\<open>now - ts < RATE_LIMIT_WINDOW_MS\<close>\<close>
  "withinWindow now ts = (now - ts < RATE_LIMIT_WINDOW_MS)"

definition cleanRateLimits :: "int \<Rightarrow> (string \<rightharpoonup> int list) \<Rightarrow> (string \<rightharpoonup> int list)" where
  \<comment> \<open>The loop of \<open>saveState\<close> over \<open>Object.keys(state.rateLimits)\<close>: every sender keeps
      its timestamps within the window, and a sender left with none is deleted.\<close>
  "cleanRateLimits now rl =
     (\<lambda>sender.
        case rl sender of
          None \<Rightarrow> None
        | Some tss \<Rightarrow>
            (let kept = filter (withinWindow now) tss
             in if kept = [] then None else Some kept))"

definition saveState ::
  "(nat \<Rightarrow> int) \<Rightarrow> ProcessedMessageStore \<Rightarrow> 'a store_state_scheme \<Rightarrow> 'a store_state_scheme" where
  "saveState clock state w =
     (let ids = (if length (processedIds state) > MAX_PROCESSED_IDS
                 then sliceFrom (- int MAX_PROCESSED_IDS) (processedIds state)
                 else processedIds state);
          (now, w1) = dateNow clock w;
          state' = state\<lparr>processedIds := ids,
                         rateLimits := cleanRateLimits now (rateLimits state)\<rparr>
      in w1\<lparr>stateCache := Some state',
             stateFile := Holds state',
             fileWrites := Suc (fileWrites w1)\<rparr>)"

definition isMessageProcessed :: "string \<Rightarrow> 'a store_state_scheme \<Rightarrow> bool \<times> 'a store_state_scheme" where
  "isMessageProcessed messageId w =
     (let (state, w1) = loadState w
      in (messageId \<in> set (processedIds state), w1))"

definition markMessageProcessed ::
  "(nat \<Rightarrow> int) \<Rightarrow> string \<Rightarrow> 'a store_state_scheme \<Rightarrow> 'a store_state_scheme" where
  "markMessageProcessed clock messageId w =
     (let (state, w1) = loadState w
      in if messageId \<notin> set (processedIds state)
         then saveState clock (state\<lparr>processedIds := processedIds state @ [messageId]\<rparr>) w1
         else w1)"

definition objectPrototypeNames :: "string list" where
  \<comment> \<open>The property names that every plain object inherits from \<open>Object.prototype\<close>.\<close>
  "objectPrototypeNames =
     [''constructor'', ''__defineGetter__'', ''__defineSetter__'', ''hasOwnProperty'',
      ''__lookupGetter__'', ''__lookupSetter__'', ''isPrototypeOf'', ''propertyIsEnumerable'',
      ''toString'', ''valueOf'', ''__proto__'', ''toLocaleString'']"

datatype rate_entry =
    Absent                 \<comment> \<open>\<open>undefined\<close>\<close>
  | Inherited              \<comment> \<open>a function or object of \<open>Object.prototype\<close>: truthy, and no array\<close>
  | Timestamps "int list"  \<comment> \<open>the sender's own array\<close>

definition rateLimitEntry :: "ProcessedMessageStore \<Rightarrow> string \<Rightarrow> rate_entry" where
  \<comment> \<open>\<open>state.rateLimits[sender]\<close>. The field \<open>rateLimits\<close> is a plain object, and the map
      of the model holds its own properties. A name without an own property is looked up
      in \<open>Object.prototype\<close>.\<close>
  "rateLimitEntry state sender =
     (case rateLimits state sender of
        Some tss \<Rightarrow> Timestamps tss
      | None \<Rightarrow> if sender \<in> set objectPrototypeNames then Inherited else Absent)"

definition filterEntry :: "(int \<Rightarrow> bool) \<Rightarrow> rate_entry \<Rightarrow> js_error + int list" where
  \<comment> \<open>\<open>(entry || []).filter(p)\<close>: an inherited value is truthy and has no \<open>filter\<close>, so
      the call throws a \<open>TypeError\<close>.\<close>
  "filterEntry p entry =
     (case entry of
        Absent \<Rightarrow> Inr (filter p [])
      | Timestamps tss \<Rightarrow> Inr (filter p tss)
      | Inherited \<Rightarrow> Inl (JsError ''timestamps.filter is not a function''))"

definition checkRateLimit ::
  "(nat \<Rightarrow> int) \<Rightarrow> string \<Rightarrow> int \<Rightarrow> 'a store_state_scheme \<Rightarrow>
     (js_error + bool) \<times> 'a store_state_scheme" where
  "checkRateLimit clock sender maxPerHour w =
     (let (state, w1) = loadState w;
          (now, w2) = dateNow clock w1
      in case filterEntry (withinWindow now) (rateLimitEntry state sender) of
           Inl err \<Rightarrow> (Inl err, w2)
         | Inr recentTimestamps \<Rightarrow> (Inr (int (length recentTimestamps) < maxPerHour), w2))"

definition recordReply ::
  "(nat \<Rightarrow> int) \<Rightarrow> string \<Rightarrow> 'a store_state_scheme \<Rightarrow>
     (js_error + unit) \<times> 'a store_state_scheme" where
  \<comment> \<open>\<open>if (!state.rateLimits[sender]) state.rateLimits[sender] = []\<close>, then \<open>push(now)\<close>
      and \<open>saveState\<close>. An inherited value is truthy, so nothing is assigned, and it has no
      \<open>push\<close>, so the call throws before anything is saved.\<close>
  "recordReply clock sender w =
     (let (state, w1) = loadState w;
          (now, w2) = dateNow clock w1
      in case rateLimitEntry state sender of
           Inherited \<Rightarrow> (Inl (JsError ''state.rateLimits[sender].push is not a function''), w2)
         | Absent \<Rightarrow>
             (Inr (), saveState clock (state\<lparr>rateLimits := (rateLimits state)(sender \<mapsto> [] @ [now])\<rparr>) w2)
         | Timestamps tss \<Rightarrow>
             (Inr (), saveState clock (state\<lparr>rateLimits := (rateLimits state)(sender \<mapsto> tss @ [now])\<rparr>) w2))"

fun markAll :: "(nat \<Rightarrow> int) \<Rightarrow> string list \<Rightarrow> 'a store_state_scheme \<Rightarrow> 'a store_state_scheme" where
  \<comment> \<open>A sequence of \<open>markMessageProcessed\<close> calls, first to last.\<close>
  "markAll clock [] w = w"
| "markAll clock (i # is) w = markAll clock is (markMessageProcessed clock i w)"

definition currentStore :: "'a store_state_scheme \<Rightarrow> ProcessedMessageStore" where
  \<comment> \<open>The store as the program sees it: what \<open>loadState()\<close> returns.\<close>
  "currentStore w = fst (loadState w)"

section \<open>Shared types (\<open>types.ts\<close>)\<close>

text \<open>
  Record fields carry a prefix naming their record, since the source uses the same field
  name (\<open>messageId\<close>, \<open>from\<close>, \<open>subject\<close>) in several interfaces. An optional
  field is an \<open>option\<close>. Of \<open>EmailAccountConfig\<close> the model keeps the fields that
  the code modelled here reads.
\<close>

record EmailAccountConfig =
  cfg_imapUser :: string
  cfg_imapPassword :: string
  cfg_smtpHost :: string
  cfg_smtpPort :: "nat option"
  cfg_smtpUser :: "string option"
  cfg_smtpPassword :: "string option"
  cfg_smtpTls :: "bool option"
  cfg_smtpStartTls :: "bool option"
  cfg_replyPrefix :: "string option"
  cfg_signature :: "string option"

record ResolvedEmailAccount =
  acc_accountId :: string
  acc_email :: string
  acc_config :: EmailAccountConfig

record ParsedEmail =
  em_messageId :: string
  em_from :: string
  em_fromName :: "string option"
  em_to :: "string list"
  em_cc :: "string list"
  em_subject :: string
  em_textBody :: string
  em_htmlBody :: "string option"
  em_date :: int
  em_inReplyTo :: "string option"
  em_references :: "string list option"
  em_headers :: "string \<rightharpoonup> string"
  em_uid :: nat

record EmailThreadInfo =
  ti_messageId :: string
  ti_inReplyTo :: string
  ti_references :: "string list"

definition truthy :: "string option \<Rightarrow> bool" where
  \<comment> \<open>JavaScript truthiness of an optional string: \<open>undefined\<close> and \<open>""\<close> are falsy.\<close>
  "truthy v = (case v of None \<Rightarrow> False | Some s \<Rightarrow> s \<noteq> [])"

definition orElse :: "string option \<Rightarrow> string \<Rightarrow> string" where
  \<comment> \<open>\<open>v || d\<close> on an optional string\<close>
  "orElse v d = (case v of None \<Rightarrow> d | Some s \<Rightarrow> if s = [] then d else s)"

definition orUndefined :: "string option \<Rightarrow> string option" where
  \<comment> \<open>\<open>v || undefined\<close> on an optional string\<close>
  "orUndefined v = (if truthy v then v else None)"

definition digitChar :: "nat \<Rightarrow> char" where
  "digitChar d = ''0123456789'' ! d"

function showNat :: "nat \<Rightarrow> string" where
  "showNat n = (if n < 10 then [digitChar n] else showNat (n div 10) @ [digitChar (n mod 10)])"
  by pat_completeness auto
termination
  by (relation "measure id") auto

declare showNat.simps [simp del]

definition showInt :: "int \<Rightarrow> string" where
  \<comment> \<open>An integer inside a template literal: its decimal digits.\<close>
  "showInt i = (if i < 0 then CHR ''-'' # showNat (nat (- i)) else showNat (nat i))"

section \<open>Sending (\<open>smtp.ts\<close>)\<close>

record SmtpOptions =
  so_host :: string
  so_port :: nat
  so_user :: string
  so_password :: string
  so_tls :: bool
  so_startTls :: bool

text \<open>
  The message handed to the transport (nodemailer's \<open>SendMailOptions\<close>), and the
  options and result of \<open>sendEmail\<close>. A transport handle is the \<open>SmtpOptions\<close> it was
  created with.
\<close>

record SendMailOptions =
  mo_from :: string
  mo_to :: string
  mo_subject :: string
  mo_text :: string
  mo_html :: "string option"
  mo_headers :: "(string \<times> string) list option"

record SendEmailOptions =
  se_transporter :: SmtpOptions
  se_from :: string
  se_fromName :: "string option"
  se_to :: string
  se_subject :: string
  se_text :: string
  se_html :: "string option"
  se_threadInfo :: "EmailThreadInfo option"
  se_signature :: "string option"

record SendResult =
  res_ok :: bool
  res_messageId :: "string option"
  res_error :: "string option"

record InboundEmailContext =
  ctx_channel :: string
  ctx_accountId :: string
  ctx_from :: string
  ctx_fromName :: "string option"
  ctx_to :: string
  ctx_subject :: string
  ctx_body :: string
  ctx_messageId :: string
  ctx_inReplyTo :: "string option"
  ctx_date :: int

section \<open>The mailbox (\<open>imap.ts\<close> over the IMAP client)\<close>

record EmailAddress =
  addr_address :: "string option"
  addr_name :: "string option"

text \<open>What \<open>simpleParser\<close> of mailparser returns, as far as \<open>parseMailToEmail\<close> reads it.\<close>

record ParsedMail =
  pm_messageId :: "string option"
  pm_from :: "EmailAddress list"
  pm_to :: "EmailAddress list list"
  pm_cc :: "EmailAddress list list"
  pm_text :: "string option"
  pm_html :: "string option"
  pm_subject :: "string option"
  pm_date :: "int option"
  pm_inReplyTo :: "string option"
  pm_references :: "string list option"
  pm_headers :: "(string \<times> string) list"

text \<open>
  A message of the watched folder: its UID, whether it carries the \<open>\Seen\<close> flag, and
  what \<open>simpleParser\<close> makes of its source (a parsed mail, or the error it throws). The
  folder lists its messages in ascending UID order, the most recent last, as IMAP does;
  a search answers in that order and a fetch yields messages in that order. The sequence
  number of a message is its position in the folder, the first message having the
  number 1; UIDs and sequence numbers differ as soon as a message has been removed.
\<close>

record ImapMessage =
  msg_uid :: nat
  msg_seen :: bool
  msg_parsed :: "js_error + ParsedMail"

datatype imap_event =
    LockAcquired string
  | Searched
  | Fetched "nat list"
  | FlagsAdded nat
  | LockReleased string

section \<open>The world and its oracles\<close>

text \<open>
  The world extends the store state with the transport cache of \<open>smtp.ts\<close>, the
  messages handed to a transport, the invocations of the responder, the watched folder
  and the log of IMAP operations.

  What the program cannot decide is an oracle of the environment: the clock and
  \<open>Math.random\<close> (indexed by the number of reads so far, counted in \<open>ticks\<close>), the
  outcome of handing a message to a transport (indexed by the number of messages handed
  over before), whether an IMAP command fails (indexed by the length of the IMAP log),
  and the HTML to text conversion.
\<close>

record world = store_state +
  transporterCache :: "string \<rightharpoonup> SmtpOptions"
  outbox :: "(SmtpOptions \<times> SendMailOptions) list"
  inbound :: "InboundEmailContext list"
  mailbox :: "ImapMessage list"
  imapLog :: "imap_event list"

record env =
  env_clock :: "nat \<Rightarrow> int"
  env_random :: "nat \<Rightarrow> string"
  env_sendMail :: "nat \<Rightarrow> SmtpOptions \<Rightarrow> SendMailOptions \<Rightarrow> js_error + string"
  env_imapFault :: "nat \<Rightarrow> js_error option"
  env_htmlToText :: "string \<Rightarrow> string"

section \<open>Reply composition and transport (\<open>smtp.ts\<close>)\<close>

definition transporterKey :: "SmtpOptions \<Rightarrow> string" where
  "transporterKey opts = so_host opts @ '':'' @ showNat (so_port opts) @ '':'' @ so_user opts"

definition getSmtpTransporter :: "SmtpOptions \<Rightarrow> world \<Rightarrow> SmtpOptions \<times> world" where
  "getSmtpTransporter opts w =
     (case transporterCache w (transporterKey opts) of
        Some transporter \<Rightarrow> (transporter, w)
      | None \<Rightarrow> (opts, w\<lparr>transporterCache := (transporterCache w)(transporterKey opts \<mapsto> opts)\<rparr>))"

definition threadHeaders :: "EmailThreadInfo \<Rightarrow> (string \<times> string) list" where
  "threadHeaders threadInfo =
     (if ti_inReplyTo threadInfo \<noteq> [] then [(''In-Reply-To'', ti_inReplyTo threadInfo)] else []) @
     (if ti_references threadInfo \<noteq> []
      then [(''References'', joinWith '' '' (ti_references threadInfo))] else [])"

definition buildMessageOptions :: "SendEmailOptions \<Rightarrow> SendMailOptions" where
  \<comment> \<open>The message that the \<open>try\<close> block of \<open>sendEmail\<close> builds.\<close>
  "buildMessageOptions opts =
     \<lparr>mo_from = (case se_fromName opts of
                    Some n \<Rightarrow> if n \<noteq> [] then CHR 0x22 # n @ CHR 0x22 # '' <'' @ se_from opts @ ''>''
                              else se_from opts
                  | None \<Rightarrow> se_from opts),
      mo_to = se_to opts,
      mo_subject = se_subject opts,
      mo_text = (case se_signature opts of
                   Some sg \<Rightarrow> if sg \<noteq> [] then se_text opts @ [CHR 0x0A, CHR 0x0A] @ sg else se_text opts
                 | None \<Rightarrow> se_text opts),
      mo_html = (case se_html opts of
                   Some h \<Rightarrow>
                     if h \<noteq> []
                     then (case se_signature opts of
                             Some sg \<Rightarrow> if sg \<noteq> [] then Some (h @ ''<br><br><pre>'' @ sg @ ''</pre>'')
                                       else Some h
                           | None \<Rightarrow> Some h)
                     else None
                 | None \<Rightarrow> None),
      mo_headers = (case se_threadInfo opts of
                      Some threadInfo \<Rightarrow> Some (threadHeaders threadInfo)
                    | None \<Rightarrow> None)\<rparr>"

definition sendMail ::
  "env \<Rightarrow> SmtpOptions \<Rightarrow> SendMailOptions \<Rightarrow> world \<Rightarrow> (js_error + string) \<times> world" where
  \<comment> \<open>\<open>transporter.sendMail(messageOptions)\<close>: the message is handed over, and the
      environment decides whether it is accepted (with the id it was given) or an error
      is thrown.\<close>
  "sendMail e transporter messageOptions w =
     (env_sendMail e (length (outbox w)) transporter messageOptions,
      w\<lparr>outbox := outbox w @ [(transporter, messageOptions)]\<rparr>)"

definition sendEmailTry :: "env \<Rightarrow> SendEmailOptions \<Rightarrow> world \<Rightarrow> (js_error + SendResult) \<times> world" where
  \<comment> \<open>The \<open>try\<close> block of \<open>sendEmail\<close>; \<open>Inl\<close> is what it throws.\<close>
  "sendEmailTry e opts w =
     (case sendMail e (se_transporter opts) (buildMessageOptions opts) w of
        (Inl err, w1) \<Rightarrow> (Inl err, w1)
      | (Inr mid, w1) \<Rightarrow> (Inr \<lparr>res_ok = True, res_messageId = Some mid, res_error = None\<rparr>, w1))"

definition errorText :: "js_error \<Rightarrow> js_error + string" where
  \<comment> \<open>\<open>err instanceof Error ? err.message : String(err)\<close>; \<open>Inl\<close> is what this
      expression throws.\<close>
  "errorText err =
     (case err of
        JsError m \<Rightarrow> Inr m
      | JsThrown s \<Rightarrow> Inr s
      | JsOpaque thrown \<Rightarrow> Inl thrown)"

definition sendEmail :: "env \<Rightarrow> SendEmailOptions \<Rightarrow> world \<Rightarrow> (js_error + SendResult) \<times> world" where
  \<comment> \<open>The \<open>try\<close> block with its \<open>catch\<close> block; \<open>Inl\<close> is an exception that leaves
      \<open>sendEmail\<close>, which only the \<open>catch\<close> block itself can throw.\<close>
  "sendEmail e opts w =
     (case sendEmailTry e opts w of
        (Inl err, w1) \<Rightarrow>
          (case errorText err of
             Inl thrown \<Rightarrow> (Inl thrown, w1)
           | Inr msg \<Rightarrow>
               (Inr \<lparr>res_ok = False, res_messageId = None, res_error = Some msg\<rparr>, w1))
      | (Inr result, w1) \<Rightarrow> (Inr result, w1))"

definition buildReplySubject :: "string \<Rightarrow> string option \<Rightarrow> string" where
  \<comment> \<open>The second argument is \<open>None\<close> when the caller passes \<open>undefined\<close>: the default
      parameter value applies.\<close>
  "buildReplySubject originalSubject prefixArg =
     (let pre = (case prefixArg of None \<Rightarrow> ''Re: '' | Some p \<Rightarrow> p)
      in if startsWith (toLowerCase originalSubject) (toLowerCase pre) then originalSubject
         else pre @ originalSubject)"

definition mathRandom :: "env \<Rightarrow> world \<Rightarrow> string \<times> world" where
  \<comment> \<open>\<open>Math.random().toString(36).slice(2)\<close>\<close>
  "mathRandom e w = (env_random e (ticks w), w\<lparr>ticks := Suc (ticks w)\<rparr>)"

definition threadReferences :: "string \<Rightarrow> string list option \<Rightarrow> string list" where
  \<comment> \<open>The \<open>references\<close> array that \<open>buildThreadInfo\<close> builds.\<close>
  "threadReferences originalMessageId originalReferences =
     (let references = (case originalReferences of None \<Rightarrow> [] | Some rs \<Rightarrow> rs)
      in if originalMessageId \<noteq> [] \<and> originalMessageId \<notin> set references
         then references @ [originalMessageId]
         else references)"

definition buildThreadInfo ::
  "env \<Rightarrow> string \<Rightarrow> string list option \<Rightarrow> world \<Rightarrow> EmailThreadInfo \<times> world" where
  "buildThreadInfo e originalMessageId originalReferences w =
     (let references = threadReferences originalMessageId originalReferences;
          (now, w1) = dateNow (env_clock e) w;
          (rnd, w2) = mathRandom e w1
      in (\<lparr>ti_messageId = ''<'' @ showInt now @ ''-'' @ rnd @ ''@clawdbot>'',
           ti_inReplyTo = originalMessageId,
           ti_references = references\<rparr>, w2))"

section \<open>Fetching and normalising (\<open>imap.ts\<close>)\<close>

definition logImap :: "imap_event \<Rightarrow> world \<Rightarrow> world" where
  "logImap ev w = w\<lparr>imapLog := imapLog w @ [ev]\<rparr>"

definition imapFailure :: "env \<Rightarrow> world \<Rightarrow> js_error option" where
  \<comment> \<open>The error, if any, with which the next IMAP command fails.\<close>
  "imapFailure e w = env_imapFault e (length (imapLog w))"

definition setSeen :: "nat \<Rightarrow> ImapMessage \<Rightarrow> ImapMessage" where
  "setSeen uid m = (if msg_uid m = uid then m\<lparr>msg_seen := True\<rparr> else m)"

definition markAsRead :: "env \<Rightarrow> string \<Rightarrow> nat \<Rightarrow> world \<Rightarrow> (js_error + unit) \<times> world" where
  "markAsRead e folder uid w =
     (case imapFailure e w of
        Some err \<Rightarrow> (Inl err, w)
      | None \<Rightarrow>
          (let w1 = logImap (LockAcquired folder) w
           in case imapFailure e w1 of
                Some err \<Rightarrow> (Inl err, logImap (LockReleased folder) w1)
              | None \<Rightarrow>
                  (Inr (),
                   logImap (LockReleased folder)
                     (logImap (FlagsAdded uid) (w1\<lparr>mailbox := map (setSeen uid) (mailbox w1)\<rparr>)))))"

fun matchAngle :: "string \<Rightarrow> string option" where
  \<comment> \<open>Group 1 of the first match of \<open>/<([^>]+)>/\<close>.\<close>
  "matchAngle [] = None"
| "matchAngle (c # cs) =
     (if c = CHR ''<''
      then (let run = takeWhile (\<lambda>d. d \<noteq> CHR ''>'') cs
            in if run \<noteq> [] \<and> length run < length cs then Some run else matchAngle cs)
      else matchAngle cs)"

definition extractEmailAddress :: "string \<Rightarrow> string" where
  "extractEmailAddress input =
     trim (toLowerCase (case matchAngle input of Some m \<Rightarrow> m | None \<Rightarrow> input))"

definition isOnWroteLine :: "string \<Rightarrow> bool" where
  \<comment> \<open>\<open>/^On .+ wrote:$/i\<close>: the three characters \<open>On \<close>, at least one character none of
      which ends a line, and the seven characters \<open> wrote:\<close> at the very end.\<close>
  "isOnWroteLine t =
     (11 \<le> length t \<and>
      toLowerCase (take 3 t) = ''on '' \<and>
      toLowerCase (drop (length t - 7) t) = '' wrote:'' \<and>
      list_all (\<lambda>c. \<not> isLineTerminator c) (take (length t - 10) (drop 3 t)))"

definition isOriginalMessageLine :: "string \<Rightarrow> bool" where
  \<comment> \<open>\<open>/^-{2,}\s*Original Message/i\<close>\<close>
  "isOriginalMessageLine t =
     (let rest = dropWhile (\<lambda>c. c = CHR ''-'') t
      in 2 \<le> length t - length rest \<and>
         prefix ''original message'' (toLowerCase (dropWhile isWhiteSpace rest)))"

definition isQuotedLine :: "string \<Rightarrow> bool" where
  \<comment> \<open>\<open>/^>+/\<close>\<close>
  "isQuotedLine t = (case t of [] \<Rightarrow> False | c # cs \<Rightarrow> c = CHR ''>'')"

definition isSignatureLine :: "string \<Rightarrow> bool" where
  \<comment> \<open>\<open>/^--\s*$/\<close>: exactly two hyphens, then nothing but white space.\<close>
  "isSignatureLine line = (prefix ''--'' line \<and> list_all isWhiteSpace (drop 2 line))"

fun stripLoop :: "string list \<Rightarrow> bool \<Rightarrow> string list \<Rightarrow> string list" where
  \<comment> \<open>The loop of \<open>stripQuotedContent\<close> over the lines still to read, with its two
      variables \<open>result\<close> and \<open>inQuotedBlock\<close>.\<close>
  "stripLoop result inQuotedBlock [] = result"
| "stripLoop result inQuotedBlock (line # rest) =
     (if isOnWroteLine (trim line) then stripLoop result True rest
      else if isOriginalMessageLine (trim line) then stripLoop result True rest
      else if isQuotedLine (trim line) then stripLoop result inQuotedBlock rest
      else if isSignatureLine line then result
      else if \<not> inQuotedBlock then stripLoop (result @ [line]) inQuotedBlock rest
      else stripLoop result inQuotedBlock rest)"

definition stripQuotedContent :: "string \<Rightarrow> string" where
  "stripQuotedContent body =
     trim (joinWith [CHR 0x0A] (stripLoop [] False (splitLines body)))"

definition addressList :: "EmailAddress list list \<Rightarrow> string list" where
  \<comment> \<open>\<open>.flatMap((addr) => addr.value?.map((v) => v.address || "") || []).filter(Boolean)\<close>\<close>
  "addressList objs =
     filter (\<lambda>a. a \<noteq> []) (concat (map (map (\<lambda>v. orElse (addr_address v) [])) objs))"

definition collectHeaders :: "(string \<times> string) list \<Rightarrow> (string \<rightharpoonup> string)" where
  \<comment> \<open>\<open>headers[key.toLowerCase()] = String(value)\<close> for every header, in order. The
      object is a plain one: assigning a string to \<open>__proto__\<close> sets no property.\<close>
  "collectHeaders hs =
     foldl (\<lambda>m (k, v). if toLowerCase k = ''__proto__'' then m else m(toLowerCase k \<mapsto> v))
       Map.empty hs"

definition senderAddress :: "ParsedMail \<Rightarrow> string" where
  \<comment> \<open>\<open>extractEmailAddress(parsed.from?.value?.[0]?.address || "")\<close>\<close>
  "senderAddress parsed =
     extractEmailAddress
       (orElse (case pm_from parsed of [] \<Rightarrow> None | v # vs \<Rightarrow> addr_address v) [])"

definition parseMailToEmail ::
  "env \<Rightarrow> ParsedMail \<Rightarrow> nat \<Rightarrow> world \<Rightarrow> ParsedEmail option \<times> world" where
  "parseMailToEmail e parsed uid w =
     (let (messageId, w1) =
            (if truthy (pm_messageId parsed) then (orElse (pm_messageId parsed) [], w)
             else (let (now, w') = dateNow (env_clock e) w
                   in (''generated-'' @ showNat uid @ ''-'' @ showInt now, w')));
          sender = senderAddress parsed;
          fromName = (case pm_from parsed of [] \<Rightarrow> None | v # vs \<Rightarrow> addr_name v)
      in if sender = [] then (None, w1)
         else
           (let textBody0 = orElse (pm_text parsed) [];
                textBody1 = (if textBody0 = [] \<and> truthy (pm_html parsed)
                             then env_htmlToText e (orElse (pm_html parsed) [])
                             else textBody0);
                (date, w2) = (case pm_date parsed of
                                Some d \<Rightarrow> (d, w1)
                              | None \<Rightarrow> dateNow (env_clock e) w1)
            in (Some \<lparr>em_messageId = messageId,
                      em_from = sender,
                      em_fromName = fromName,
                      em_to = addressList (pm_to parsed),
                      em_cc = addressList (pm_cc parsed),
                      em_subject = orElse (pm_subject parsed) ''(no subject)'',
                      em_textBody = stripQuotedContent textBody1,
                      em_htmlBody = orUndefined (pm_html parsed),
                      em_date = date,
                      em_inReplyTo = orUndefined (pm_inReplyTo parsed),
                      em_references = pm_references parsed,
                      em_headers = collectHeaders (pm_headers parsed),
                      em_uid = uid\<rparr>, w2)))"

fun parseFetched :: "env \<Rightarrow> ImapMessage list \<Rightarrow> world \<Rightarrow> ParsedEmail list \<times> world" where
  \<comment> \<open>The body of the \<open>for await\<close> loop: a message that does not parse, or has no sender,
      is skipped.\<close>
  "parseFetched e [] w = ([], w)"
| "parseFetched e (message # rest) w =
     (case msg_parsed message of
        Inl err \<Rightarrow> parseFetched e rest w
      | Inr parsed \<Rightarrow>
          (let (email, w1) = parseMailToEmail e parsed (msg_uid message) w;
               (emails, w2) = parseFetched e rest w1
           in (case email of None \<Rightarrow> emails | Some em \<Rightarrow> em # emails, w2)))"

definition searchUnseen :: "world \<Rightarrow> nat list" where
  \<comment> \<open>\<open>client.search({ seen: false }, { uid: true })\<close>\<close>
  "searchUnseen w = map msg_uid (filter (\<lambda>m. \<not> msg_seen m) (mailbox w))"

fun fetchFrom :: "nat \<Rightarrow> nat list \<Rightarrow> ImapMessage list \<Rightarrow> ImapMessage list" where
  \<comment> \<open>The messages whose sequence number is among \<open>seqs\<close>, the first message of the
      list having the sequence number \<open>seqNo\<close>.\<close>
  "fetchFrom seqNo seqs [] = []"
| "fetchFrom seqNo seqs (m # ms) =
     (if seqNo \<in> set seqs then m # fetchFrom (seqNo + 1) seqs ms
      else fetchFrom (seqNo + 1) seqs ms)"

definition fetchBySequence :: "nat list \<Rightarrow> world \<Rightarrow> ImapMessage list" where
  \<comment> \<open>\<open>client.fetch(fetchUids, { uid: true, envelope: true, source: true })\<close>. The second
      argument is the query: what to return of each message, here also its UID. The
      third argument, whose \<open>uid: true\<close> would make the range a range of UIDs (as it
      does in \<open>search\<close> and \<open>messageFlagsAdd\<close>), is not passed, so the client reads the
      numbers of the range as sequence numbers: positions in the folder, from 1. A
      number beyond the folder selects nothing here.\<close>
  "fetchBySequence seqs w = fetchFrom 1 seqs (mailbox w)"

definition fetchUnreadEmails ::
  "env \<Rightarrow> string \<Rightarrow> int \<Rightarrow> world \<Rightarrow> (js_error + ParsedEmail list) \<times> world" where
  "fetchUnreadEmails e folder limit w =
     (case imapFailure e w of
        Some err \<Rightarrow> (Inl err, w)
      | None \<Rightarrow>
          (let w1 = logImap (LockAcquired folder) w
           in case imapFailure e w1 of
                Some err \<Rightarrow> (Inl err, logImap (LockReleased folder) w1)
              | None \<Rightarrow>
                  (let uids = searchUnseen w1;
                       w2 = logImap Searched w1
                   in if uids = [] then (Inr [], logImap (LockReleased folder) w2)
                      else
                        (let fetchUids = sliceFrom (- limit) uids
                         in case imapFailure e w2 of
                              Some err \<Rightarrow> (Inl err, logImap (LockReleased folder) w2)
                            | None \<Rightarrow>
                                (let w3 = logImap (Fetched fetchUids) w2;
                                     (emails, w4) = parseFetched e (fetchBySequence fetchUids w3) w3
                                 in (Inr emails, logImap (LockReleased folder) w4))))))"

definition autoReplyHeaders :: "string list" where
  "autoReplyHeaders =
     [''x-auto-reply'', ''x-autoreply'', ''auto-submitted'', ''x-autorespond'', ''precedence'']"

fun autoReplyScan :: "(string \<rightharpoonup> string) \<Rightarrow> string list \<Rightarrow> bool" where
  \<comment> \<open>The loop of \<open>isAutoReply\<close> over the header names still to look at.\<close>
  "autoReplyScan hdrs [] = False"
| "autoReplyScan hdrs (header # rest) =
     (case hdrs header of
        None \<Rightarrow> autoReplyScan hdrs rest
      | Some v \<Rightarrow>
          if v \<noteq> []
          then (if header = ''auto-submitted'' \<and> v \<noteq> ''no'' then True
                else if header = ''precedence'' \<and>
                        toLowerCase v \<in> set [''bulk'', ''junk'', ''list''] then True
                else if includesStr (toLowerCase v) ''auto'' then True
                else True)
          else autoReplyScan hdrs rest)"

definition isAutoReply :: "ParsedEmail \<Rightarrow> bool" where
  "isAutoReply email = autoReplyScan (em_headers email) autoReplyHeaders"

definition isIgnoredSender :: "string \<Rightarrow> bool" where
  \<comment> \<open>The eight patterns, each anchored at the start and case-insensitive;
      \<open>/^notifications?@/i\<close> is two prefixes.\<close>
  "isIgnoredSender address =
     list_ex (\<lambda>pat. prefix pat (toLowerCase address))
       [''noreply@'', ''no-reply@'', ''mailer-daemon@'', ''postmaster@'', ''bounce'',
        ''notification@'', ''notifications@'', ''donotreply@'', ''do-not-reply@'']"

section \<open>Processing one message (\<open>monitor.ts\<close>)\<close>

text \<open>
  The responder is opaque: it may call \<open>reply(text)\<close> any number of times, each time
  awaiting the result, and then returns or throws. That is a tree: \<open>Reply t k\<close> calls
  \<open>reply(t)\<close> and goes on as \<open>k\<close> says for the result it gets.
\<close>

datatype responder =
    Return
  | Throw js_error
  | Reply string "js_error + SendResult \<Rightarrow> responder"

record EmailRuntime =
  rt_processInbound :: "InboundEmailContext \<Rightarrow> responder"

record ProcessEmailOptions =
  po_email :: ParsedEmail
  po_account :: ResolvedEmailAccount
  po_runtime :: EmailRuntime
  po_maxReplies :: int
  po_folder :: string

datatype outcome =
    SkippedProcessed
  | SkippedOwn
  | SkippedAutoReply
  | SkippedIgnoredSender
  | SkippedRateLimited
  | Forwarded

definition smtpOptionsOf :: "EmailAccountConfig \<Rightarrow> SmtpOptions" where
  \<comment> \<open>The argument of \<open>getSmtpTransporter\<close> in \<open>reply\<close>, with its \<open>??\<close> defaults.\<close>
  "smtpOptionsOf cfg =
     \<lparr>so_host = cfg_smtpHost cfg,
      so_port = (case cfg_smtpPort cfg of None \<Rightarrow> 587 | Some p \<Rightarrow> p),
      so_user = (case cfg_smtpUser cfg of None \<Rightarrow> cfg_imapUser cfg | Some u \<Rightarrow> u),
      so_password = (case cfg_smtpPassword cfg of None \<Rightarrow> cfg_imapPassword cfg | Some p \<Rightarrow> p),
      so_tls = (case cfg_smtpTls cfg of None \<Rightarrow> False | Some b \<Rightarrow> b),
      so_startTls = (case cfg_smtpStartTls cfg of None \<Rightarrow> True | Some b \<Rightarrow> b)\<rparr>"

definition reply ::
  "env \<Rightarrow> ProcessEmailOptions \<Rightarrow> string \<Rightarrow> world \<Rightarrow> (js_error + SendResult) \<times> world" where
  \<comment> \<open>The closure \<open>reply\<close> that \<open>processEmail\<close> builds for the responder.\<close>
  "reply e opts replyText w =
     (let email = po_email opts;
          account = po_account opts;
          (transporter, w1) = getSmtpTransporter (smtpOptionsOf (acc_config account)) w;
          (threadInfo, w2) = buildThreadInfo e (em_messageId email) (em_references email) w1;
          subject = buildReplySubject (em_subject email) (cfg_replyPrefix (acc_config account))
      in case sendEmail e
                \<lparr>se_transporter = transporter,
                 se_from = acc_email account,
                 se_fromName = None,
                 se_to = em_from email,
                 se_subject = subject,
                 se_text = replyText,
                 se_html = None,
                 se_threadInfo = Some threadInfo,
                 se_signature = cfg_signature (acc_config account)\<rparr> w2 of
           (Inl err, w3) \<Rightarrow> (Inl err, w3)
         | (Inr result, w3) \<Rightarrow>
             if res_ok result
             then (case recordReply (env_clock e) (em_from email) w3 of
                     (Inl err, w4) \<Rightarrow> (Inl err, w4)
                   | (Inr u, w4) \<Rightarrow> (Inr result, w4))
             else (Inr result, w3))"

primrec runResponder ::
  "(string \<Rightarrow> world \<Rightarrow> (js_error + SendResult) \<times> world) \<Rightarrow> responder \<Rightarrow> world \<Rightarrow>
     js_error option \<times> world" where
  \<comment> \<open>\<open>await runtime.processInbound(context)\<close>: the error it throws, if any.\<close>
  "runResponder rep Return = (\<lambda>w. (None, w))"
| "runResponder rep (Throw err) = (\<lambda>w. (Some err, w))"
| "runResponder rep (Reply replyText k) =
     (\<lambda>w. case rep replyText w of (r, w1) \<Rightarrow> runResponder rep (k r) w1)"

definition consumeMessage ::
  "env \<Rightarrow> ProcessEmailOptions \<Rightarrow> outcome \<Rightarrow> world \<Rightarrow> (js_error + outcome) \<times> world" where
  \<comment> \<open>What the four skipping branches and the end of the forwarding branch do:
      \<open>markMessageProcessed\<close>, \<open>await markAsRead\<close>, \<open>return\<close>.\<close>
  "consumeMessage e opts how w =
     (let w1 = markMessageProcessed (env_clock e) (em_messageId (po_email opts)) w
      in case markAsRead e (po_folder opts) (em_uid (po_email opts)) w1 of
           (Inl err, w2) \<Rightarrow> (Inl err, w2)
         | (Inr u, w2) \<Rightarrow> (Inr how, w2))"

definition inboundContext :: "ProcessEmailOptions \<Rightarrow> InboundEmailContext" where
  "inboundContext opts =
     \<lparr>ctx_channel = ''email'',
      ctx_accountId = acc_accountId (po_account opts),
      ctx_from = em_from (po_email opts),
      ctx_fromName = em_fromName (po_email opts),
      ctx_to = acc_email (po_account opts),
      ctx_subject = em_subject (po_email opts),
      ctx_body = em_textBody (po_email opts),
      ctx_messageId = em_messageId (po_email opts),
      ctx_inReplyTo = em_inReplyTo (po_email opts),
      ctx_date = em_date (po_email opts)\<rparr>"

definition processEmail ::
  "env \<Rightarrow> ProcessEmailOptions \<Rightarrow> world \<Rightarrow> (js_error + outcome) \<times> world" where
  \<comment> \<open>The result names the branch taken, which the source only writes to its log; the
      calls of the optional logger are left out and taken not to throw. \<open>Inl\<close> is an
      exception that leaves \<open>processEmail\<close>.\<close>
  "processEmail e opts w =
     (let email = po_email opts;
          account = po_account opts;
          (processed, w1) = isMessageProcessed (em_messageId email) w
      in if processed then (Inr SkippedProcessed, w1)
         else if toLowerCase (em_from email) = toLowerCase (acc_email account)
         then consumeMessage e opts SkippedOwn w1
         else if isAutoReply email then consumeMessage e opts SkippedAutoReply w1
         else if isIgnoredSender (em_from email) then consumeMessage e opts SkippedIgnoredSender w1
         else
           (case checkRateLimit (env_clock e) (em_from email) (po_maxReplies opts) w1 of
              (Inl err, w2) \<Rightarrow> (Inl err, w2)
            | (Inr allowed, w2) \<Rightarrow>
                if \<not> allowed then consumeMessage e opts SkippedRateLimited w2
                else
                  (let context = inboundContext opts;
                       w3 = w2\<lparr>inbound := inbound w2 @ [context]\<rparr>
                   in case runResponder (reply e opts) (rt_processInbound (po_runtime opts) context) w3 of
                        (Some err, w4) \<Rightarrow> (Inl err, w4)
                      | (None, w4) \<Rightarrow> consumeMessage e opts Forwarded w4)))"

section \<open>Notions used to state the properties\<close>

definition startsQuotedBlock :: "string \<Rightarrow> bool" where
  \<comment> \<open>The line is one of the two quoted-reply headers.\<close>
  "startsQuotedBlock line = (isOnWroteLine (trim line) \<or> isOriginalMessageLine (trim line))"

definition recordedTimestamps :: "ProcessedMessageStore \<Rightarrow> string \<Rightarrow> int list" where
  \<comment> \<open>The reply timestamps that the store records for the sender: the sender's own
      entry in \<open>rateLimits\<close>, and none when there is no such entry.\<close>
  "recordedTimestamps state sender =
     (case rateLimits state sender of Some tss \<Rightarrow> tss | None \<Rightarrow> [])"

definition recentCount :: "int \<Rightarrow> ProcessedMessageStore \<Rightarrow> string \<Rightarrow> int" where
  \<comment> \<open>How many recorded reply timestamps of the sender lie within the window that ends
      at \<open>now\<close>.\<close>
  "recentCount now state sender =
     int (length (filter (\<lambda>ts. now - ts < 60 * 60 * 1000) (recordedTimestamps state sender)))"

definition filterVerdict :: "int \<Rightarrow> ProcessEmailOptions \<Rightarrow> ProcessedMessageStore \<Rightarrow> outcome" where
  \<comment> \<open>The filter pipeline as the specification words it: five rules in order, the first
      that matches decides, and a message that matches none is forwarded.\<close>
  "filterVerdict now opts state =
     (if em_messageId (po_email opts) \<in> set (processedIds state) then SkippedProcessed
      else if toLowerCase (em_from (po_email opts)) = toLowerCase (acc_email (po_account opts))
      then SkippedOwn
      else if isAutoReply (po_email opts) then SkippedAutoReply
      else if isIgnoredSender (em_from (po_email opts)) then SkippedIgnoredSender
      else if po_maxReplies opts \<le> recentCount now state (em_from (po_email opts))
      then SkippedRateLimited
      else Forwarded)"

definition yieldsEmail :: "ImapMessage \<Rightarrow> bool" where
  \<comment> \<open>The message parses and has a sender address.\<close>
  "yieldsEmail m = (case msg_parsed m of Inl err \<Rightarrow> False | Inr parsed \<Rightarrow> senderAddress parsed \<noteq> [])"

definition unseenMessages :: "world \<Rightarrow> ImapMessage list" where
  \<comment> \<open>The messages of the folder without the seen flag, in the folder's order.\<close>
  "unseenMessages w = filter (\<lambda>m. \<not> msg_seen m) (mailbox w)"


definition forwardingWorld :: "ProcessEmailOptions \<Rightarrow> world \<Rightarrow> world" where
  \<comment> \<open>The world in which \<open>processEmail\<close> invokes the responder, when no rule matches:
      the store is loaded, the rate-limit check has read the clock once, and the
      invocation is on record.\<close>
  "forwardingWorld opts w =
     (snd (loadState w))\<lparr>ticks := Suc (ticks w), inbound := inbound w @ [inboundContext opts]\<rparr>"

definition responderRun :: "env \<Rightarrow> ProcessEmailOptions \<Rightarrow> world \<Rightarrow> js_error option \<times> world" where
  \<comment> \<open>That invocation: the responder of the runtime, run with the \<open>reply\<close> closure of
      this message.\<close>
  "responderRun e opts w =
     runResponder (reply e opts) (rt_processInbound (po_runtime opts) (inboundContext opts))
       (forwardingWorld opts w)"

definition lockScoped :: "string \<Rightarrow> imap_event list \<Rightarrow> bool" where
  \<comment> \<open>The events are none at all, or they start with taking the lock of the folder, end
      with releasing it, and are searches and fetches in between.\<close>
  "lockScoped folder evs =
     (evs = [] \<or>
      (case evs of
         [] \<Rightarrow> False
       | first # rest \<Rightarrow>
           first = LockAcquired folder \<and> rest \<noteq> [] \<and> last rest = LockReleased folder \<and>
           list_all (\<lambda>ev. case ev of Searched \<Rightarrow> True | Fetched uids \<Rightarrow> True | _ \<Rightarrow> False)
             (butlast rest)))"

section \<open>Example inputs\<close>

definition exampleClock :: "nat \<Rightarrow> int" where
  \<comment> \<open>A clock that starts at two hours after the epoch and advances one second a read.\<close>
  "exampleClock k = 7200000 + 1000 * int k"

definition freshState :: store_state where
  "freshState = \<lparr>stateCache = None, stateFile = NoFile, ticks = 0, fileWrites = 0\<rparr>"

definition overfullStore :: ProcessedMessageStore where
  "overfullStore =
     emptyStore\<lparr>processedIds := replicate 3 ''<old@x>'' @ replicate 9999 ''<mid@x>'' @ [''<new@x>'']\<rparr>"

definition twoIdsState :: store_state where
  "twoIdsState =
     \<lparr>stateCache = Some (emptyStore\<lparr>processedIds := [''<a@x>'', ''<b@x>'']\<rparr>),
      stateFile = Holds (emptyStore\<lparr>processedIds := [''<a@x>'', ''<b@x>'']\<rparr>),
      ticks = 0, fileWrites = 0\<rparr>"

definition exampleEnv :: env where
  \<comment> \<open>An environment in which every delivery is accepted and no IMAP command fails.\<close>
  "exampleEnv =
     \<lparr>env_clock = exampleClock,
      env_random = (\<lambda>k. ''k3x9q2''),
      env_sendMail = (\<lambda>k transporter message. Inr ''<sent@relay>''),
      env_imapFault = (\<lambda>k. None),
      env_htmlToText = (\<lambda>html. html)\<rparr>"

definition freshWorld :: world where
  "freshWorld =
     \<lparr>stateCache = None, stateFile = NoFile, ticks = 0, fileWrites = 0,
      transporterCache = Map.empty, outbox = [], inbound = [], mailbox = [], imapLog = []\<rparr>"

definition autoSubmittedNo :: ParsedEmail where
  \<comment> \<open>A message from a person whose only auto-reply header is \<open>Auto-Submitted: no\<close>.\<close>
  "autoSubmittedNo =
     \<lparr>em_messageId = ''<m1@example.com>'',
      em_from = ''alice@example.com'',
      em_fromName = Some ''Alice'',
      em_to = [''bot@example.org''],
      em_cc = [],
      em_subject = ''Question'',
      em_textBody = ''Is the report ready?'',
      em_htmlBody = None,
      em_date = 7000000,
      em_inReplyTo = None,
      em_references = None,
      em_headers = [''auto-submitted'' \<mapsto> ''no''],
      em_uid = 7\<rparr>"

definition botAccount :: ResolvedEmailAccount where
  "botAccount =
     \<lparr>acc_accountId = ''default'',
      acc_email = ''bot@example.org'',
      acc_config =
        \<lparr>cfg_imapUser = ''bot@example.org'', cfg_imapPassword = ''secret'',
         cfg_smtpHost = ''smtp.example.org'', cfg_smtpPort = None, cfg_smtpUser = None,
         cfg_smtpPassword = None, cfg_smtpTls = None, cfg_smtpStartTls = None,
         cfg_replyPrefix = None, cfg_signature = None\<rparr>\<rparr>"

definition aliceEmail :: ParsedEmail where
  "aliceEmail = autoSubmittedNo\<lparr>em_headers := Map.empty\<rparr>"

definition replyOnce :: EmailRuntime where
  "replyOnce = \<lparr>rt_processInbound = (\<lambda>context. Reply ''Thank you.'' (\<lambda>result. Return))\<rparr>"

definition exampleOpts :: ProcessEmailOptions where
  "exampleOpts =
     \<lparr>po_email = aliceEmail, po_account = botAccount, po_runtime = replyOnce,
      po_maxReplies = 1, po_folder = ''INBOX''\<rparr>"

definition unseenSeven :: ImapMessage where
  \<comment> \<open>The message with UID 7 as the folder holds it, unseen; \<open>processEmail\<close> does not
      read its source.\<close>
  "unseenSeven = \<lparr>msg_uid = 7, msg_seen = False, msg_parsed = Inl (JsError ''not parsed here'')\<rparr>"


definition limitedWorld :: world where
  \<comment> \<open>One reply to the sender was recorded a second before the example clock starts.\<close>
  "limitedWorld =
     freshWorld\<lparr>stateCache := Some (emptyStore\<lparr>rateLimits := [''alice@example.com'' \<mapsto> [7199000]]\<rparr>),
                mailbox := [unseenSeven]\<rparr>"

definition failingEnv :: env where
  \<comment> \<open>As \<open>exampleEnv\<close>, but every delivery fails.\<close>
  "failingEnv = exampleEnv\<lparr>env_sendMail := (\<lambda>k transporter message. Inl (JsError ''ECONNREFUSED''))\<rparr>"


definition exampleSend :: SendEmailOptions where
  "exampleSend =
     \<lparr>se_transporter = smtpOptionsOf (acc_config botAccount),
      se_from = ''bot@example.org'', se_fromName = None, se_to = ''alice@example.com'',
      se_subject = ''Re: Question'', se_text = ''Thank you.'', se_html = None,
      se_threadInfo = None, se_signature = None\<rparr>"

definition mailFrom :: "string \<Rightarrow> string \<Rightarrow> ParsedMail" where
  "mailFrom address mid =
     \<lparr>pm_messageId = Some mid,
      pm_from = [\<lparr>addr_address = Some address, addr_name = None\<rparr>],
      pm_to = [], pm_cc = [],
      pm_text = Some ''Hello'', pm_html = None, pm_subject = Some ''Hi'',
      pm_date = Some 7000000, pm_inReplyTo = None, pm_references = None, pm_headers = []\<rparr>"

definition shiftedFolder :: world where
  \<comment> \<open>A folder from which the message with UID 1 has been removed: the messages with
      the UIDs 2 to 6 have the sequence numbers 1 to 5. The messages with the UIDs 3
      and 5 are unseen.\<close>
  "shiftedFolder =
     freshWorld\<lparr>mailbox :=
       [\<lparr>msg_uid = 2, msg_seen = True, msg_parsed = Inr (mailFrom ''alice@example.com'' ''<m2@x>'')\<rparr>,
        \<lparr>msg_uid = 3, msg_seen = False, msg_parsed = Inr (mailFrom ''bob@example.com'' ''<m3@x>'')\<rparr>,
        \<lparr>msg_uid = 4, msg_seen = True, msg_parsed = Inr (mailFrom ''carol@example.com'' ''<m4@x>'')\<rparr>,
        \<lparr>msg_uid = 5, msg_seen = False, msg_parsed = Inr (mailFrom ''dave@example.com'' ''<m5@x>'')\<rparr>,
        \<lparr>msg_uid = 6, msg_seen = True, msg_parsed = Inr (mailFrom ''erin@example.com'' ''<m6@x>'')\<rparr>]\<rparr>"

definition agedWorld :: world where
  \<comment> \<open>Two replies to the sender are on record: one seventy minutes before the example
      clock starts, and one a second before it starts.\<close>
  "agedWorld =
     freshWorld\<lparr>stateCache :=
       Some (emptyStore\<lparr>rateLimits := [''alice@example.com'' \<mapsto> [3000000, 7199000]]\<rparr>)\<rparr>"


section \<open>Properties of the state store\<close>

lemma sliceFrom_neg: "0 < n \<Longrightarrow> sliceFrom (- int n) xs = drop (length xs - n) xs"
  by (auto simp: sliceFrom_def Let_def max_def nat_diff_distrib')

lemma sliceFrom_zero: "sliceFrom 0 xs = xs"
  by (simp add: sliceFrom_def)

lemma savedIds_eq:
  "(if length ids > MAX_PROCESSED_IDS then sliceFrom (- int MAX_PROCESSED_IDS) ids else ids)
   = drop (length ids - MAX_PROCESSED_IDS) ids"
proof -
  have "0 < MAX_PROCESSED_IDS" by (simp add: MAX_PROCESSED_IDS_def)
  then show ?thesis by (simp add: sliceFrom_neg)
qed

lemma saveState_fields:
  "stateCache (saveState clock state w) =
     Some (state\<lparr>processedIds := drop (length (processedIds state) - MAX_PROCESSED_IDS) (processedIds state),
                 rateLimits := cleanRateLimits (clock (ticks w)) (rateLimits state)\<rparr>)"
  "stateFile (saveState clock state w) =
     Holds (state\<lparr>processedIds := drop (length (processedIds state) - MAX_PROCESSED_IDS) (processedIds state),
                 rateLimits := cleanRateLimits (clock (ticks w)) (rateLimits state)\<rparr>)"
  "ticks (saveState clock state w) = Suc (ticks w)"
  "fileWrites (saveState clock state w) = Suc (fileWrites w)"
  by (simp_all add: saveState_def dateNow_def Let_def savedIds_eq)

lemma loadState_cached: "stateCache w = Some s \<Longrightarrow> loadState w = (s, w)"
  by (simp add: loadState_def)

lemma loadState_snd:
  "stateCache (snd (loadState w)) = Some (fst (loadState w))"
  "stateFile (snd (loadState w)) = stateFile w"
  "ticks (snd (loadState w)) = ticks w"
  "fileWrites (snd (loadState w)) = fileWrites w"
  by (simp_all add: loadState_def split: option.splits state_file.splits)

lemma loadState_idem: "loadState (snd (loadState w)) = loadState w"
  by (simp add: loadState_def split: option.splits state_file.splits)

lemma currentStore_loaded: "currentStore (snd (loadState w)) = currentStore w"
  by (simp add: currentStore_def loadState_idem)

lemma currentStore_saveState:
  "currentStore (saveState clock state w) =
     state\<lparr>processedIds := drop (length (processedIds state) - MAX_PROCESSED_IDS) (processedIds state),
           rateLimits := cleanRateLimits (clock (ticks w)) (rateLimits state)\<rparr>"
  by (simp add: currentStore_def loadState_def saveState_fields)

lemma markMessageProcessed_present:
  "messageId \<in> set (processedIds (currentStore w)) \<Longrightarrow>
   markMessageProcessed clock messageId w = snd (loadState w)"
  by (simp add: markMessageProcessed_def currentStore_def split_def Let_def)

lemma markMessageProcessed_absent:
  "messageId \<notin> set (processedIds (currentStore w)) \<Longrightarrow>
   markMessageProcessed clock messageId w =
     saveState clock ((currentStore w)\<lparr>processedIds := processedIds (currentStore w) @ [messageId]\<rparr>)
       (snd (loadState w))"
  by (simp add: markMessageProcessed_def currentStore_def split_def Let_def)

lemma markMessageProcessed_ids:
  "processedIds (currentStore (markMessageProcessed clock messageId w)) =
     (if messageId \<in> set (processedIds (currentStore w)) then processedIds (currentStore w)
      else drop (Suc (length (processedIds (currentStore w))) - MAX_PROCESSED_IDS)
             (processedIds (currentStore w) @ [messageId]))"
  by (simp add: markMessageProcessed_present markMessageProcessed_absent currentStore_loaded
        currentStore_saveState)

lemma markMessageProcessed_distinct:
  "distinct (processedIds (currentStore w)) \<Longrightarrow>
   distinct (processedIds (currentStore (markMessageProcessed clock messageId w)))"
  by (simp add: markMessageProcessed_ids del: drop_append)

lemma markAll_distinct:
  "distinct (processedIds (currentStore w)) \<Longrightarrow>
   distinct (processedIds (currentStore (markAll clock ids w)))"
  by (induction ids arbitrary: w) (simp_all add: markMessageProcessed_distinct)

lemma markMessageProcessed_member:
  "messageId \<in> set (processedIds (currentStore (markMessageProcessed clock messageId w)))"
proof -
  have "0 < MAX_PROCESSED_IDS" by (simp add: MAX_PROCESSED_IDS_def)
  then show ?thesis
    by (auto simp: markMessageProcessed_ids)
qed

text \<open>
  C4. After \<open>saveState\<close> the cache and the file hold the same store, whose
  \<open>processedIds\<close> has at most \<open>MAX_PROCESSED_IDS = 10000\<close> entries and is a suffix of
  the list that was saved. When the list had more than the cap, exactly the cap count is
  kept: the last 10000 entries, in their order, the oldest dropped.
\<close>

theorem saveState_bounded:
  "\<exists>saved. stateCache (saveState clock state w) = Some saved \<and>
           stateFile (saveState clock state w) = Holds saved \<and>
           length (processedIds saved) \<le> MAX_PROCESSED_IDS \<and>
           MAX_PROCESSED_IDS = 10000 \<and>
           suffix (processedIds saved) (processedIds state) \<and>
           (length (processedIds state) > MAX_PROCESSED_IDS \<longrightarrow>
              length (processedIds saved) = MAX_PROCESSED_IDS \<and>
              processedIds saved =
                drop (length (processedIds state) - MAX_PROCESSED_IDS) (processedIds state)) \<and>
           (length (processedIds state) \<le> MAX_PROCESSED_IDS \<longrightarrow>
              processedIds saved = processedIds state)"
  by (simp add: saveState_fields suffix_drop) (simp add: MAX_PROCESSED_IDS_def)

theorem saveState_bounded_witness:
  "(\<exists>saved. stateFile (saveState exampleClock overfullStore freshState) = Holds saved \<and>
     length (processedIds overfullStore) = 10003 \<and>
     length (processedIds saved) = 10000 \<and>
     processedIds saved = replicate 9999 ''<mid@x>'' @ [''<new@x>'']) \<and>
   (\<exists>saved. stateFile (saveState exampleClock (emptyStore\<lparr>processedIds := [''<a@x>'', ''<b@x>'']\<rparr>) freshState) = Holds saved \<and>
     processedIds saved = [''<a@x>'', ''<b@x>''])"
  using saveState_bounded [of exampleClock overfullStore freshState]
    saveState_bounded [of exampleClock "emptyStore\<lparr>processedIds := [''<a@x>'', ''<b@x>'']\<rparr>" freshState]
  by (auto simp: MAX_PROCESSED_IDS_def overfullStore_def emptyStore_def)

text \<open>
  C10. Starting from a store without duplicates, no sequence of \<open>markMessageProcessed\<close>
  calls produces a duplicate in \<open>processedIds\<close>. A call with an id that is already
  present leaves the store, the file, the number of file writes and the number of clock
  reads as they were: nothing is appended and nothing is saved. When the cache was
  already loaded the whole state is unchanged.
\<close>

theorem markMessageProcessed_no_duplicates:
  "(distinct (processedIds (currentStore w)) \<longrightarrow>
      distinct (processedIds (currentStore (markAll clock ids w)))) \<and>
   (messageId \<in> set (processedIds (currentStore w)) \<longrightarrow>
      currentStore (markMessageProcessed clock messageId w) = currentStore w \<and>
      stateFile (markMessageProcessed clock messageId w) = stateFile w \<and>
      fileWrites (markMessageProcessed clock messageId w) = fileWrites w \<and>
      ticks (markMessageProcessed clock messageId w) = ticks w \<and>
      (stateCache w \<noteq> None \<longrightarrow> markMessageProcessed clock messageId w = w))"
  by (auto simp: markAll_distinct markMessageProcessed_present currentStore_loaded loadState_snd
        loadState_cached)

theorem markMessageProcessed_no_duplicates_witness:
  "distinct (processedIds (currentStore twoIdsState)) \<and>
   distinct (processedIds (currentStore
      (markAll exampleClock [''<c@x>'', ''<a@x>'', ''<c@x>''] twoIdsState))) \<and>
   processedIds (currentStore
      (markAll exampleClock [''<c@x>'', ''<a@x>'', ''<c@x>''] twoIdsState)) =
     [''<a@x>'', ''<b@x>'', ''<c@x>''] \<and>
   ''<a@x>'' \<in> set (processedIds (currentStore twoIdsState)) \<and>
   markMessageProcessed exampleClock ''<a@x>'' twoIdsState = twoIdsState"
  using markMessageProcessed_no_duplicates
    [of twoIdsState exampleClock "[''<c@x>'', ''<a@x>'', ''<c@x>'']" "''<a@x>''"]
  by (simp add: twoIdsState_def currentStore_def loadState_def markMessageProcessed_def
        saveState_def dateNow_def emptyStore_def sliceFrom_def MAX_PROCESSED_IDS_def Let_def)

section \<open>Properties of reply composition\<close>

lemma toLowerCase_append: "toLowerCase (a @ b) = toLowerCase a @ toLowerCase b"
  by (simp add: toLowerCase_def)

lemma buildReplySubject_Some:
  "buildReplySubject s (Some p) = (if prefix (toLowerCase p) (toLowerCase s) then s else p @ s)"
  by (simp add: buildReplySubject_def startsWith_def)

lemma buildReplySubject_idem:
  "buildReplySubject (buildReplySubject s (Some p)) (Some p) = buildReplySubject s (Some p)"
  by (simp add: buildReplySubject_Some toLowerCase_append)

text \<open>
  C8. \<open>buildReplySubject\<close> returns the subject unchanged when its lower-cased form
  starts with the lower-cased prefix, and the prefix followed by the subject otherwise;
  a missing prefix argument means \<open>"Re: "\<close>. Applying it twice with \<open>"Re: "\<close> gives
  what applying it once gives, and the same holds for every prefix.
\<close>

theorem buildReplySubject_idempotent:
  "buildReplySubject s (Some p) = (if startsWith (toLowerCase s) (toLowerCase p) then s else p @ s) \<and>
   buildReplySubject s None = buildReplySubject s (Some ''Re: '') \<and>
   buildReplySubject (buildReplySubject s (Some ''Re: '')) (Some ''Re: '') =
     buildReplySubject s (Some ''Re: '') \<and>
   buildReplySubject (buildReplySubject s (Some p)) (Some p) = buildReplySubject s (Some p)"
  by (simp add: buildReplySubject_idem) (simp add: buildReplySubject_def)

theorem buildReplySubject_idempotent_witness:
  "buildReplySubject ''Hello'' (Some ''Re: '') = ''Re: Hello'' \<and>
   buildReplySubject ''RE: Hello'' (Some ''Re: '') = ''RE: Hello'' \<and>
   buildReplySubject (buildReplySubject ''Hello'' (Some ''Re: '')) (Some ''Re: '') = ''Re: Hello''"
proof -
  have a: "buildReplySubject ''Hello'' (Some ''Re: '') = ''Re: Hello''"
    by (simp add: buildReplySubject_def startsWith_def toLowerCase_def toLowerChar_def
          char_of_def bit_Suc_0_iff bit_0)
  have b: "buildReplySubject ''RE: Hello'' (Some ''Re: '') = ''RE: Hello''"
    by (simp add: buildReplySubject_def startsWith_def toLowerCase_def toLowerChar_def
          char_of_def bit_Suc_0_iff bit_0)
  from buildReplySubject_idempotent [of "''Hello''" "''Re: ''"]
  have "buildReplySubject (buildReplySubject ''Hello'' (Some ''Re: '')) (Some ''Re: '') =
          buildReplySubject ''Hello'' (Some ''Re: '')"
    by blast
  with a b show ?thesis by simp
qed

lemma buildThreadInfo_references:
  "ti_references (fst (buildThreadInfo e pid refs w)) = threadReferences pid refs"
  by (simp add: buildThreadInfo_def Let_def split_def)

text \<open>
  C5, as the claim states it, fails. When the parent's id occurs in the parent's
  reference chain but is not its last entry, nothing is appended and the list does not
  end with the parent's id; and a chain that repeats an entry is copied with the
  repetition.
\<close>

theorem buildThreadInfo_chain_counterexample:
  "ti_references (fst (buildThreadInfo exampleEnv ''<p@x>'' (Some [''<p@x>'', ''<q@x>'']) freshWorld)) =
     [''<p@x>'', ''<q@x>''] \<and>
   last (ti_references (fst (buildThreadInfo exampleEnv ''<p@x>'' (Some [''<p@x>'', ''<q@x>'']) freshWorld)))
     \<noteq> ''<p@x>'' \<and>
   \<not> distinct (ti_references (fst (buildThreadInfo exampleEnv ''<p@x>'' (Some [''<a@x>'', ''<a@x>'']) freshWorld)))"
  by (simp add: buildThreadInfo_references threadReferences_def)

text \<open>
  C5, amended. The references list is the parent's reference chain, with the parent's id
  appended when that id is not empty and occurs nowhere in the chain. It has no
  duplicates when the chain has none. When a parent exists the list contains the
  parent's id, and it ends with that id when the id did not occur in the chain or was
  already its last entry.
\<close>

theorem buildThreadInfo_chain:
  "ti_references (fst (buildThreadInfo e pid refs w)) =
     (let chain = (case refs of None \<Rightarrow> [] | Some rs \<Rightarrow> rs)
      in if pid \<noteq> [] \<and> pid \<notin> set chain then chain @ [pid] else chain) \<and>
   ((case refs of None \<Rightarrow> True | Some rs \<Rightarrow> distinct rs) \<longrightarrow>
      distinct (ti_references (fst (buildThreadInfo e pid refs w)))) \<and>
   (pid \<noteq> [] \<longrightarrow> pid \<in> set (ti_references (fst (buildThreadInfo e pid refs w)))) \<and>
   (pid \<noteq> [] \<and> (case refs of None \<Rightarrow> True | Some rs \<Rightarrow> pid \<notin> set rs \<or> last rs = pid) \<longrightarrow>
      last (ti_references (fst (buildThreadInfo e pid refs w))) = pid)"
  by (auto simp: buildThreadInfo_references threadReferences_def Let_def split: option.splits)

theorem buildThreadInfo_chain_witness:
  "ti_references (fst (buildThreadInfo exampleEnv ''<p@x>'' (Some [''<a@x>'', ''<b@x>'']) freshWorld)) =
     [''<a@x>'', ''<b@x>'', ''<p@x>''] \<and>
   distinct [''<a@x>'', ''<b@x>''] \<and> ''<p@x>'' \<noteq> [] \<and> ''<p@x>'' \<notin> set [''<a@x>'', ''<b@x>''] \<and>
   distinct (ti_references (fst (buildThreadInfo exampleEnv ''<p@x>'' (Some [''<a@x>'', ''<b@x>'']) freshWorld))) \<and>
   last (ti_references (fst (buildThreadInfo exampleEnv ''<p@x>'' (Some [''<a@x>'', ''<b@x>'']) freshWorld))) = ''<p@x>''"
  using buildThreadInfo_chain [of exampleEnv "''<p@x>''" "Some [''<a@x>'', ''<b@x>'']" freshWorld]
  by simp

section \<open>Properties of the filters and the normaliser\<close>

lemma autoReplyScan_iff:
  "autoReplyScan hdrs names =
     list_ex (\<lambda>h. case hdrs h of None \<Rightarrow> False | Some v \<Rightarrow> v \<noteq> []) names"
  by (induction names) (auto split: option.splits)

text \<open>
  C3. The code classifies a message whose only auto-reply header is
  \<open>auto-submitted: no\<close> as an auto-reply: after its value tests, the loop body of
  \<open>isAutoReply\<close> returns true for every header of the list that is present with a
  non-empty value.
\<close>

theorem isAutoReply_auto_submitted_no:
  "em_headers autoSubmittedNo ''auto-submitted'' = Some ''no'' \<and>
   dom (em_headers autoSubmittedNo) = {''auto-submitted''} \<and>
   isAutoReply autoSubmittedNo"
  by (simp add: isAutoReply_def autoReplyHeaders_def autoSubmittedNo_def)

lemma stripLoop_result:
  "stripLoop result inQuotedBlock lines = result @ stripLoop [] inQuotedBlock lines"
proof (induction lines arbitrary: result inQuotedBlock)
  case Nil
  then show ?case by simp
next
  case (Cons line rest)
  have quoted: "stripLoop result True rest = result @ stripLoop [] True rest"
    by (rule Cons.IH)
  have same: "stripLoop result inQuotedBlock rest = result @ stripLoop [] inQuotedBlock rest"
    by (rule Cons.IH)
  have push: "stripLoop (result @ [line]) inQuotedBlock rest =
              result @ stripLoop [line] inQuotedBlock rest"
    using Cons.IH [of "result @ [line]" inQuotedBlock] Cons.IH [of "[line]" inQuotedBlock]
    by simp
  show ?case
    using quoted same push by (cases inQuotedBlock) simp_all
qed

lemma stripLoop_in_block: "stripLoop [] True lines = []"
  by (induction lines) simp_all

lemma trim_signature_line:
  assumes "isSignatureLine line"
  shows "trim line = ''--''"
proof -
  from assms obtain ws where l: "line = ''--'' @ ws" and ws: "list_all isWhiteSpace ws"
    by (auto simp: isSignatureLine_def prefix_def)
  have nw: "\<not> isWhiteSpace (CHR ''-'')"
    by (simp add: isWhiteSpace_def)
  have "dropWhile isWhiteSpace (rev ws) = []"
    using ws by (simp add: list_all_iff)
  then have "dropWhile isWhiteSpace (rev ws @ ''--'') = ''--''"
    using ws nw by (simp add: dropWhile_append list_all_iff)
  then show ?thesis
    using nw by (simp add: trim_def l)
qed

lemma signature_line_not_other:
  assumes "isSignatureLine line"
  shows "\<not> isOnWroteLine (trim line)" "\<not> isOriginalMessageLine (trim line)"
    "\<not> isQuotedLine (trim line)"
  using trim_signature_line [OF assms]
  by (simp_all add: isOnWroteLine_def isOriginalMessageLine_def isQuotedLine_def toLowerCase_def)

lemma stripLoop_eq:
  "stripLoop [] False lines =
     filter (\<lambda>l. \<not> isQuotedLine (trim l))
       (takeWhile (\<lambda>l. \<not> startsQuotedBlock l \<and> \<not> isSignatureLine l) lines)"
proof (induction lines)
  case Nil
  then show ?case by simp
next
  case (Cons line rest)
  show ?case
  proof (cases "isSignatureLine line")
    case True
    then show ?thesis
      using signature_line_not_other [OF True] by simp
  next
    case False
    then show ?thesis
      using Cons.IH stripLoop_result [of "[line]" False rest]
      by (simp add: startsQuotedBlock_def stripLoop_in_block)
  qed
qed

lemma isSignatureLine_iff:
  "isSignatureLine line = (\<exists>ws. line = ''--'' @ ws \<and> list_all isWhiteSpace ws)"
  by (auto simp: isSignatureLine_def prefix_def)

lemmas eval_strings =
  trim_def isWhiteSpace_def isOnWroteLine_def isOriginalMessageLine_def isQuotedLine_def
  isSignatureLine_def isLineTerminator_def toLowerCase_def toLowerChar_def char_of_def
  bit_Suc_0_iff bit_0 stripQuotedContent_def startsQuotedBlock_def

text \<open>
  C9, as the claim states it, fails. A line of three hyphens is not a signature
  delimiter for the code: the text is not cut there, and the line and what follows it
  are kept.
\<close>

theorem stripQuotedContent_three_hyphens_counterexample:
  "stripQuotedContent (''hi'' @ CHR 0x0A # ''---'' @ CHR 0x0A # ''bye'') =
     ''hi'' @ CHR 0x0A # ''---'' @ CHR 0x0A # ''bye''"
  by (simp add: eval_strings)

text \<open>
  C9, amended. The lines of the text are read up to, and without, the first line that
  is a quoted-reply header (\<open>On ... wrote:\<close> or an \<open>Original Message\<close> separator,
  after trimming) or a signature delimiter. Of these lines the ones that start with
  \<open>>\<close> after trimming are dropped; the rest are joined with line feeds and the result
  is trimmed. A signature delimiter is a line of exactly two hyphens followed by nothing
  but white space.
\<close>

theorem stripQuotedContent_lines:
  "stripQuotedContent body =
     trim (joinWith [CHR 0x0A]
       (filter (\<lambda>l. \<not> isQuotedLine (trim l))
          (takeWhile (\<lambda>l. \<not> startsQuotedBlock l \<and> \<not> isSignatureLine l) (splitLines body)))) \<and>
   isSignatureLine line = (\<exists>ws. line = ''--'' @ ws \<and> list_all isWhiteSpace ws)"
  using isSignatureLine_iff [of line] by (simp add: stripQuotedContent_def stripLoop_eq)

theorem stripQuotedContent_lines_witness:
  "stripQuotedContent (''Thanks!'' @ CHR 0x0A # ''> old'' @ CHR 0x0A # ''fine'' @ CHR 0x0A #
      ''On Mon, Bob wrote:'' @ CHR 0x0A # ''later'') = ''Thanks!'' @ CHR 0x0A # ''fine'' \<and>
   trim (joinWith [CHR 0x0A]
       (filter (\<lambda>l. \<not> isQuotedLine (trim l))
          (takeWhile (\<lambda>l. \<not> startsQuotedBlock l \<and> \<not> isSignatureLine l)
             (splitLines (''Hello'' @ CHR 0x0A # ''-- '' @ CHR 0x0A # ''Bob''))))) = ''Hello'' \<and>
   isSignatureLine ''-- '' \<and> \<not> isSignatureLine ''---''"
proof -
  have a: "stripQuotedContent (''Thanks!'' @ CHR 0x0A # ''> old'' @ CHR 0x0A # ''fine'' @ CHR 0x0A #
      ''On Mon, Bob wrote:'' @ CHR 0x0A # ''later'') = ''Thanks!'' @ CHR 0x0A # ''fine''"
    by (simp add: eval_strings)
  have b: "stripQuotedContent (''Hello'' @ CHR 0x0A # ''-- '' @ CHR 0x0A # ''Bob'') = ''Hello''"
    by (simp add: eval_strings)
  have c: "isSignatureLine ''-- ''" "\<not> isSignatureLine ''---''"
    by (simp_all add: isSignatureLine_def isWhiteSpace_def)
  from stripQuotedContent_lines [of "''Hello'' @ CHR 0x0A # ''-- '' @ CHR 0x0A # ''Bob''" "''-- ''"] b
  have "trim (joinWith [CHR 0x0A]
       (filter (\<lambda>l. \<not> isQuotedLine (trim l))
          (takeWhile (\<lambda>l. \<not> startsQuotedBlock l \<and> \<not> isSignatureLine l)
             (splitLines (''Hello'' @ CHR 0x0A # ''-- '' @ CHR 0x0A # ''Bob''))))) = ''Hello''"
    by (simp only:)
  with a c show ?thesis by (simp only: simp_thms)
qed

section \<open>Properties of message processing\<close>

lemma currentStore_cong:
  "stateCache w' = stateCache w \<Longrightarrow> stateFile w' = stateFile w \<Longrightarrow> currentStore w' = currentStore w"
  by (simp add: currentStore_def loadState_def split: option.splits state_file.splits)

lemma loadState_world:
  fixes w :: world
  shows "outbox (snd (loadState w)) = outbox w" "inbound (snd (loadState w)) = inbound w"
    "mailbox (snd (loadState w)) = mailbox w" "imapLog (snd (loadState w)) = imapLog w"
    "transporterCache (snd (loadState w)) = transporterCache w"
  by (simp_all add: loadState_def split: option.splits state_file.splits)

lemma saveState_world:
  fixes w :: world
  shows "outbox (saveState clock s w) = outbox w" "inbound (saveState clock s w) = inbound w"
    "mailbox (saveState clock s w) = mailbox w" "imapLog (saveState clock s w) = imapLog w"
    "transporterCache (saveState clock s w) = transporterCache w"
  by (simp_all add: saveState_def dateNow_def Let_def)

lemma markMessageProcessed_world:
  fixes w :: world
  shows "outbox (markMessageProcessed clock i w) = outbox w"
    "inbound (markMessageProcessed clock i w) = inbound w"
    "mailbox (markMessageProcessed clock i w) = mailbox w"
    "imapLog (markMessageProcessed clock i w) = imapLog w"
    "transporterCache (markMessageProcessed clock i w) = transporterCache w"
  by (simp_all add: markMessageProcessed_def Let_def split_def saveState_world loadState_world)

lemma markAsRead_store:
  "stateCache (snd (markAsRead e folder uid w)) = stateCache w"
  "stateFile (snd (markAsRead e folder uid w)) = stateFile w"
  "ticks (snd (markAsRead e folder uid w)) = ticks w"
  "fileWrites (snd (markAsRead e folder uid w)) = fileWrites w"
  "outbox (snd (markAsRead e folder uid w)) = outbox w"
  "inbound (snd (markAsRead e folder uid w)) = inbound w"
  by (simp_all add: markAsRead_def logImap_def Let_def split: option.splits)


lemma markAsRead_failed:
  "fst (markAsRead e folder uid w) = Inl err \<Longrightarrow> mailbox (snd (markAsRead e folder uid w)) = mailbox w"
  by (simp add: markAsRead_def logImap_def Let_def split: option.splits)




lemma consumeMessage_eq:
  "consumeMessage e opts how w =
     (case fst (markAsRead e (po_folder opts) (em_uid (po_email opts))
                  (markMessageProcessed (env_clock e) (em_messageId (po_email opts)) w)) of
        Inl err \<Rightarrow> Inl err | Inr u \<Rightarrow> Inr how,
      snd (markAsRead e (po_folder opts) (em_uid (po_email opts))
            (markMessageProcessed (env_clock e) (em_messageId (po_email opts)) w)))"
  by (simp add: consumeMessage_def Let_def split_beta split: sum.splits)

lemma consumeMessage_fst:
  "fst (consumeMessage e opts how w) =
     (case fst (markAsRead e (po_folder opts) (em_uid (po_email opts))
                  (markMessageProcessed (env_clock e) (em_messageId (po_email opts)) w)) of
        Inl err \<Rightarrow> Inl err | Inr u \<Rightarrow> Inr how)"
  by (simp add: consumeMessage_eq)

lemma consumeMessage_snd:
  "snd (consumeMessage e opts how w) =
     snd (markAsRead e (po_folder opts) (em_uid (po_email opts))
            (markMessageProcessed (env_clock e) (em_messageId (po_email opts)) w))"
  by (simp add: consumeMessage_eq)

lemma consumeMessage_effects:
  "inbound (snd (consumeMessage e opts how w)) = inbound w"
  "outbox (snd (consumeMessage e opts how w)) = outbox w"
  "stateFile (snd (consumeMessage e opts how w)) =
     stateFile (markMessageProcessed (env_clock e) (em_messageId (po_email opts)) w)"
  by (simp_all add: consumeMessage_snd markAsRead_store markMessageProcessed_world)

lemma consumeMessage_store:
  "currentStore (snd (consumeMessage e opts how w)) =
     currentStore (markMessageProcessed (env_clock e) (em_messageId (po_email opts)) w)"
  by (rule currentStore_cong) (simp_all add: consumeMessage_snd markAsRead_store)

lemma consumeMessage_recorded:
  "em_messageId (po_email opts) \<in> set (processedIds (currentStore (snd (consumeMessage e opts how w))))"
  by (simp add: consumeMessage_store markMessageProcessed_member)

lemma consumeMessage_outcome:
  "fst (consumeMessage e opts how w) = Inr how \<or> (\<exists>err. fst (consumeMessage e opts how w) = Inl err)"
  by (simp add: consumeMessage_fst split: sum.splits)



lemma isMessageProcessed_eq:
  "isMessageProcessed i w = (i \<in> set (processedIds (currentStore w)), snd (loadState w))"
  by (simp add: isMessageProcessed_def currentStore_def split_beta)

lemma withinWindow_eq: "withinWindow now ts = (now - ts < 60 * 60 * 1000)"
  by (simp add: withinWindow_def RATE_LIMIT_WINDOW_MS_def)


lemma checkRateLimit_readable:
  assumes "rateLimitEntry (currentStore w) sender \<noteq> Inherited"
  shows "checkRateLimit clock sender maxPerHour w =
           (Inr (recentCount (clock (ticks w)) (currentStore w) sender < maxPerHour),
            (snd (loadState w))\<lparr>ticks := Suc (ticks w)\<rparr>)"
  using assms
  by (simp add: checkRateLimit_def filterEntry_def rateLimitEntry_def recentCount_def
        recordedTimestamps_def currentStore_def dateNow_def split_beta Let_def loadState_snd
        withinWindow_eq [abs_def] split: option.splits if_splits)

lemma checkRateLimit_inherited:
  assumes "rateLimitEntry (currentStore w) sender = Inherited"
  shows "checkRateLimit clock sender maxPerHour w =
           (Inl (JsError ''timestamps.filter is not a function''),
            (snd (loadState w))\<lparr>ticks := Suc (ticks w)\<rparr>)"
  using assms
  by (simp add: checkRateLimit_def filterEntry_def currentStore_def dateNow_def split_beta Let_def
        loadState_snd)

lemma recentCount_readable:
  "0 < recentCount now state sender \<Longrightarrow> rateLimitEntry state sender \<noteq> Inherited"
  by (simp add: recentCount_def recordedTimestamps_def rateLimitEntry_def split: option.splits)

lemma currentStore_ticks [simp]: "currentStore (w\<lparr>ticks := t\<rparr>) = currentStore w"
  by (rule currentStore_cong) simp_all

lemma processEmail_processed:
  assumes "filterVerdict (env_clock e (ticks w)) opts (currentStore w) = SkippedProcessed"
  shows "processEmail e opts w = (Inr SkippedProcessed, snd (loadState w))"
  using assms
  by (simp add: processEmail_def isMessageProcessed_eq filterVerdict_def Let_def split: if_splits)

lemma processEmail_skipped:
  assumes "filterVerdict (env_clock e (ticks w)) opts (currentStore w) = v"
    and "v = SkippedOwn \<or> v = SkippedAutoReply \<or> v = SkippedIgnoredSender"
  shows "processEmail e opts w = consumeMessage e opts v (snd (loadState w))"
  using assms
  by (auto simp: processEmail_def isMessageProcessed_eq filterVerdict_def Let_def split: if_splits)


lemma processEmail_rate_limited:
  assumes "filterVerdict (env_clock e (ticks w)) opts (currentStore w) = SkippedRateLimited"
    and "rateLimitEntry (currentStore w) (em_from (po_email opts)) \<noteq> Inherited"
  shows "processEmail e opts w =
           consumeMessage e opts SkippedRateLimited ((snd (loadState w))\<lparr>ticks := Suc (ticks w)\<rparr>)"
proof -
  have check: "checkRateLimit (env_clock e) (em_from (po_email opts)) (po_maxReplies opts) (snd (loadState w)) =
      (Inr (recentCount (env_clock e (ticks w)) (currentStore w) (em_from (po_email opts)) < po_maxReplies opts),
       (snd (loadState w))\<lparr>ticks := Suc (ticks w)\<rparr>)"
    using checkRateLimit_readable [of "snd (loadState w)" "em_from (po_email opts)" "env_clock e" "po_maxReplies opts"]
      assms(2)
    by (simp add: currentStore_loaded loadState_snd loadState_idem)
  show ?thesis
    using assms(1)
    by (simp add: processEmail_def isMessageProcessed_eq filterVerdict_def Let_def check
          split: if_splits)
qed

lemma processEmail_forwarded:
  assumes "filterVerdict (env_clock e (ticks w)) opts (currentStore w) = Forwarded"
    and "rateLimitEntry (currentStore w) (em_from (po_email opts)) \<noteq> Inherited"
  shows "processEmail e opts w =
           (case runResponder (reply e opts) (rt_processInbound (po_runtime opts) (inboundContext opts))
                   ((snd (loadState w))\<lparr>ticks := Suc (ticks w),
                       inbound := inbound w @ [inboundContext opts]\<rparr>) of
              (Some err, w4) \<Rightarrow> (Inl err, w4)
            | (None, w4) \<Rightarrow> consumeMessage e opts Forwarded w4)"
proof -
  have check: "checkRateLimit (env_clock e) (em_from (po_email opts)) (po_maxReplies opts) (snd (loadState w)) =
      (Inr (recentCount (env_clock e (ticks w)) (currentStore w) (em_from (po_email opts)) < po_maxReplies opts),
       (snd (loadState w))\<lparr>ticks := Suc (ticks w)\<rparr>)"
    using checkRateLimit_readable [of "snd (loadState w)" "em_from (po_email opts)" "env_clock e" "po_maxReplies opts"]
      assms(2)
    by (simp add: currentStore_loaded loadState_snd loadState_idem)
  show ?thesis
    using assms(1)
    by (simp add: processEmail_def isMessageProcessed_eq filterVerdict_def Let_def check
          loadState_world split: if_splits)
qed

lemma processEmail_inherited:
  assumes "filterVerdict (env_clock e (ticks w)) opts (currentStore w) = SkippedRateLimited \<or>
           filterVerdict (env_clock e (ticks w)) opts (currentStore w) = Forwarded"
    and "rateLimitEntry (currentStore w) (em_from (po_email opts)) = Inherited"
  shows "processEmail e opts w =
           (Inl (JsError ''timestamps.filter is not a function''),
            (snd (loadState w))\<lparr>ticks := Suc (ticks w)\<rparr>)"
proof -
  have check: "checkRateLimit (env_clock e) (em_from (po_email opts)) (po_maxReplies opts) (snd (loadState w)) =
      (Inl (JsError ''timestamps.filter is not a function''), (snd (loadState w))\<lparr>ticks := Suc (ticks w)\<rparr>)"
    using checkRateLimit_inherited [of "snd (loadState w)" "em_from (po_email opts)" "env_clock e" "po_maxReplies opts"]
      assms(2)
    by (simp add: currentStore_loaded loadState_snd loadState_idem)
  show ?thesis
    using assms(1)
    by (auto simp: processEmail_def isMessageProcessed_eq filterVerdict_def Let_def check
          split: if_splits)
qed


lemma sendEmail_accepted:
  "env_sendMail e (length (outbox w)) (se_transporter opts) (buildMessageOptions opts) = Inr mid \<Longrightarrow>
   fst (sendEmail e opts w) = Inr \<lparr>res_ok = True, res_messageId = Some mid, res_error = None\<rparr>"
  by (simp add: sendEmail_def sendEmailTry_def sendMail_def)

lemma sendEmail_rejected:
  "env_sendMail e (length (outbox w)) (se_transporter opts) (buildMessageOptions opts) = Inl err \<Longrightarrow>
   fst (sendEmail e opts w) =
     (case errorText err of
        Inl thrown \<Rightarrow> Inl thrown
      | Inr msg \<Rightarrow> Inr \<lparr>res_ok = False, res_messageId = None, res_error = Some msg\<rparr>)"
  by (simp add: sendEmail_def sendEmailTry_def sendMail_def split: sum.splits)






lemma filterVerdict_processed:
  "(filterVerdict now opts state = SkippedProcessed) =
     (em_messageId (po_email opts) \<in> set (processedIds state))"
  by (simp add: filterVerdict_def)


lemma processEmail_not_forwarded:
  assumes "filterVerdict (env_clock e (ticks w)) opts (currentStore w) \<noteq> Forwarded"
  shows "inbound (snd (processEmail e opts w)) = inbound w"
    and "outbox (snd (processEmail e opts w)) = outbox w"
    and "fst (processEmail e opts w) = Inr (filterVerdict (env_clock e (ticks w)) opts (currentStore w)) \<or>
         (\<exists>err. fst (processEmail e opts w) = Inl err)"
    and "filterVerdict (env_clock e (ticks w)) opts (currentStore w) \<noteq> SkippedRateLimited \<or>
         rateLimitEntry (currentStore w) (em_from (po_email opts)) \<noteq> Inherited \<Longrightarrow>
         em_messageId (po_email opts) \<in> set (processedIds (currentStore (snd (processEmail e opts w))))"
proof -
  let ?v = "filterVerdict (env_clock e (ticks w)) opts (currentStore w)"
  let ?readable = "rateLimitEntry (currentStore w) (em_from (po_email opts)) \<noteq> Inherited"
  consider (p) "?v = SkippedProcessed"
    | (s) "?v = SkippedOwn \<or> ?v = SkippedAutoReply \<or> ?v = SkippedIgnoredSender"
    | (r) "?v = SkippedRateLimited" "?readable"
    | (t) "?v = SkippedRateLimited" "\<not> ?readable"
    using assms by (cases ?v) auto
  then have "inbound (snd (processEmail e opts w)) = inbound w \<and>
    outbox (snd (processEmail e opts w)) = outbox w \<and>
    (fst (processEmail e opts w) = Inr ?v \<or> (\<exists>err. fst (processEmail e opts w) = Inl err)) \<and>
    (?v \<noteq> SkippedRateLimited \<or> ?readable \<longrightarrow>
       em_messageId (po_email opts) \<in> set (processedIds (currentStore (snd (processEmail e opts w)))))"
  proof cases
    case p
    then show ?thesis
      using p [unfolded filterVerdict_processed]
      by (simp add: processEmail_processed loadState_world currentStore_loaded)
  next
    case s
    show ?thesis
      using consumeMessage_outcome [of e opts ?v "snd (loadState w)"]
      by (simp add: processEmail_skipped [OF refl s] consumeMessage_effects consumeMessage_recorded
            loadState_world)
  next
    case r
    show ?thesis
      using consumeMessage_outcome [of e opts SkippedRateLimited "(snd (loadState w))\<lparr>ticks := Suc (ticks w)\<rparr>"]
      by (simp add: processEmail_rate_limited [OF r] r consumeMessage_effects consumeMessage_recorded
            loadState_world)
  next
    case t
    have "processEmail e opts w =
            (Inl (JsError ''timestamps.filter is not a function''),
             (snd (loadState w))\<lparr>ticks := Suc (ticks w)\<rparr>)"
      using t by (intro processEmail_inherited) simp_all
    then show ?thesis
      using t by (simp add: loadState_world)
  qed
  then show "inbound (snd (processEmail e opts w)) = inbound w"
    and "outbox (snd (processEmail e opts w)) = outbox w"
    and "fst (processEmail e opts w) = Inr ?v \<or> (\<exists>err. fst (processEmail e opts w) = Inl err)"
    and "?v \<noteq> SkippedRateLimited \<or> ?readable \<Longrightarrow>
         em_messageId (po_email opts) \<in> set (processedIds (currentStore (snd (processEmail e opts w))))"
    by simp_all
qed




lemmas eval_examples =
  exampleOpts_def aliceEmail_def autoSubmittedNo_def botAccount_def exampleEnv_def exampleClock_def
  freshWorld_def unseenSeven_def emptyStore_def







lemma recordedTimestamps_clean:
  "recordedTimestamps (state\<lparr>rateLimits := cleanRateLimits now (rateLimits state)\<rparr>) sender =
     filter (withinWindow now) (recordedTimestamps state sender)"
  by (simp add: recordedTimestamps_def cleanRateLimits_def Let_def split: option.splits)

lemma recordedTimestamps_ids [simp]:
  "recordedTimestamps (state\<lparr>processedIds := ids\<rparr>) sender = recordedTimestamps state sender"
  by (simp add: recordedTimestamps_def)

lemma markMessageProcessed_timestamps:
  "recordedTimestamps (currentStore (markMessageProcessed clock i w)) sender =
     (if i \<in> set (processedIds (currentStore w)) then recordedTimestamps (currentStore w) sender
      else filter (withinWindow (clock (ticks w))) (recordedTimestamps (currentStore w) sender))"
  using recordedTimestamps_clean [of "clock (ticks w)" "currentStore w" sender]
  by (simp add: markMessageProcessed_present markMessageProcessed_absent currentStore_loaded
        currentStore_saveState loadState_snd recordedTimestamps_def)

lemma consumeMessage_timestamps:
  "\<exists>P. recordedTimestamps (currentStore (snd (consumeMessage e opts how w))) sender =
        filter P (recordedTimestamps (currentStore w) sender)"
proof (cases "em_messageId (po_email opts) \<in> set (processedIds (currentStore w))")
  case True
  then have "recordedTimestamps (currentStore (snd (consumeMessage e opts how w))) sender =
             filter (\<lambda>ts. True) (recordedTimestamps (currentStore w) sender)"
    by (simp add: consumeMessage_store markMessageProcessed_timestamps)
  then show ?thesis by blast
next
  case False
  then have "recordedTimestamps (currentStore (snd (consumeMessage e opts how w))) sender =
             filter (withinWindow (env_clock e (ticks w))) (recordedTimestamps (currentStore w) sender)"
    by (simp add: consumeMessage_store markMessageProcessed_timestamps)
  then show ?thesis by blast
qed

lemma processEmail_not_forwarded_timestamps:
  assumes "filterVerdict (env_clock e (ticks w)) opts (currentStore w) \<noteq> Forwarded"
  shows "\<exists>P. recordedTimestamps (currentStore (snd (processEmail e opts w))) sender =
             filter P (recordedTimestamps (currentStore w) sender)"
proof -
  let ?v = "filterVerdict (env_clock e (ticks w)) opts (currentStore w)"
  let ?readable = "rateLimitEntry (currentStore w) (em_from (po_email opts)) \<noteq> Inherited"
  consider (p) "?v = SkippedProcessed"
    | (s) "?v = SkippedOwn \<or> ?v = SkippedAutoReply \<or> ?v = SkippedIgnoredSender"
    | (r) "?v = SkippedRateLimited" "?readable"
    | (t) "?v = SkippedRateLimited" "\<not> ?readable"
    using assms by (cases ?v) auto
  then show ?thesis
  proof cases
    case p
    have "recordedTimestamps (currentStore (snd (processEmail e opts w))) sender =
          filter (\<lambda>ts. True) (recordedTimestamps (currentStore w) sender)"
      by (simp add: processEmail_processed [OF p] currentStore_loaded)
    then show ?thesis by blast
  next
    case s
    show ?thesis
      using consumeMessage_timestamps [of e opts ?v "snd (loadState w)" sender]
      by (simp add: processEmail_skipped [OF refl s] currentStore_loaded)
  next
    case r
    show ?thesis
      using consumeMessage_timestamps [of e opts SkippedRateLimited "(snd (loadState w))\<lparr>ticks := Suc (ticks w)\<rparr>" sender]
      by (simp add: processEmail_rate_limited [OF r] currentStore_loaded)
  next
    case t
    have "processEmail e opts w =
            (Inl (JsError ''timestamps.filter is not a function''),
             (snd (loadState w))\<lparr>ticks := Suc (ticks w)\<rparr>)"
      using t by (intro processEmail_inherited) simp_all
    then have "recordedTimestamps (currentStore (snd (processEmail e opts w))) sender =
          filter (\<lambda>ts. True) (recordedTimestamps (currentStore w) sender)"
      by (simp add: currentStore_loaded)
    then show ?thesis by blast
  qed
qed

lemma filterVerdict_limited:
  "po_maxReplies opts \<le> recentCount now state (em_from (po_email opts)) \<Longrightarrow>
   filterVerdict now opts state \<noteq> Forwarded"
  by (simp add: filterVerdict_def)

lemma checkRateLimit_aged:
  assumes "rateLimits (currentStore w) sender = Some (before @ ts # after)"
    and "RATE_LIMIT_WINDOW_MS \<le> clock (ticks w) - ts"
  shows "fst (checkRateLimit clock sender maxPerHour w) =
           Inr (int (length (filter (withinWindow (clock (ticks w))) (before @ after))) < maxPerHour)"
proof -
  have "rateLimitEntry (currentStore w) sender \<noteq> Inherited"
    using assms(1) by (simp add: rateLimitEntry_def)
  then show ?thesis
    using assms
    by (simp add: checkRateLimit_readable recentCount_def recordedTimestamps_def
          withinWindow_eq [abs_def] RATE_LIMIT_WINDOW_MS_def)
qed

text \<open>
  C2. If the number of the sender's recorded reply timestamps within the window, at the
  time of the check, is at least the ceiling, the message is not forwarded: the responder
  is not invoked, no message is handed to a transport, and for every sender the
  timestamps on record afterwards are a selection of those on record before (none is
  added). With a ceiling of at least 1, as the configuration schema requires, the id of
  the message is recorded in \<open>processedIds\<close> too.

  A timestamp that is a window length or more in the past does not count: for a sender
  with such a timestamp on record, \<open>checkRateLimit\<close> answers as it would without that
  timestamp. For every sender whose entry can be read, \<open>checkRateLimit\<close> allows a
  reply exactly when the number of recorded timestamps within the window is below the
  ceiling.
\<close>

theorem rate_limited_sender_skipped:
  "(po_maxReplies opts \<le> recentCount (env_clock e (ticks w)) (currentStore w) (em_from (po_email opts)) \<longrightarrow>
      fst (processEmail e opts w) \<noteq> Inr Forwarded \<and>
      inbound (snd (processEmail e opts w)) = inbound w \<and>
      outbox (snd (processEmail e opts w)) = outbox w \<and>
      (\<exists>P. recordedTimestamps (currentStore (snd (processEmail e opts w))) sender =
            filter P (recordedTimestamps (currentStore w) sender)) \<and>
      (0 < po_maxReplies opts \<longrightarrow>
         em_messageId (po_email opts) \<in> set (processedIds (currentStore (snd (processEmail e opts w)))))) \<and>
   (rateLimits (currentStore w) sender = Some (before @ ts # after) \<and>
    RATE_LIMIT_WINDOW_MS \<le> clock (ticks w) - ts \<longrightarrow>
      fst (checkRateLimit clock sender maxPerHour w) =
        Inr (int (length (filter (withinWindow (clock (ticks w))) (before @ after))) < maxPerHour)) \<and>
   (rateLimitEntry (currentStore w) sender \<noteq> Inherited \<longrightarrow>
      fst (checkRateLimit clock sender maxPerHour w) =
        Inr (recentCount (clock (ticks w)) (currentStore w) sender < maxPerHour))"
proof -
  let ?v = "filterVerdict (env_clock e (ticks w)) opts (currentStore w)"
  let ?count = "recentCount (env_clock e (ticks w)) (currentStore w) (em_from (po_email opts))"
  have skip: "po_maxReplies opts \<le> ?count \<longrightarrow>
      fst (processEmail e opts w) \<noteq> Inr Forwarded \<and>
      inbound (snd (processEmail e opts w)) = inbound w \<and>
      outbox (snd (processEmail e opts w)) = outbox w \<and>
      (\<exists>P. recordedTimestamps (currentStore (snd (processEmail e opts w))) sender =
            filter P (recordedTimestamps (currentStore w) sender)) \<and>
      (0 < po_maxReplies opts \<longrightarrow>
         em_messageId (po_email opts) \<in> set (processedIds (currentStore (snd (processEmail e opts w)))))"
  proof
    assume limit: "po_maxReplies opts \<le> ?count"
    then have nf: "?v \<noteq> Forwarded"
      by (rule filterVerdict_limited)
    have result: "fst (processEmail e opts w) \<noteq> Inr Forwarded"
      using processEmail_not_forwarded(3) [OF nf] nf by auto
    have recorded: "0 < po_maxReplies opts \<longrightarrow>
         em_messageId (po_email opts) \<in> set (processedIds (currentStore (snd (processEmail e opts w))))"
    proof
      assume "0 < po_maxReplies opts"
      then have "0 < ?count"
        using limit by simp
      then have "rateLimitEntry (currentStore w) (em_from (po_email opts)) \<noteq> Inherited"
        by (rule recentCount_readable)
      then show "em_messageId (po_email opts) \<in> set (processedIds (currentStore (snd (processEmail e opts w))))"
        by (intro processEmail_not_forwarded(4) [OF nf]) simp
    qed
    from result recorded
    show "fst (processEmail e opts w) \<noteq> Inr Forwarded \<and>
      inbound (snd (processEmail e opts w)) = inbound w \<and>
      outbox (snd (processEmail e opts w)) = outbox w \<and>
      (\<exists>P. recordedTimestamps (currentStore (snd (processEmail e opts w))) sender =
            filter P (recordedTimestamps (currentStore w) sender)) \<and>
      (0 < po_maxReplies opts \<longrightarrow>
         em_messageId (po_email opts) \<in> set (processedIds (currentStore (snd (processEmail e opts w)))))"
      using processEmail_not_forwarded(1-2) [OF nf] processEmail_not_forwarded_timestamps [OF nf]
      by simp
  qed
  have slide: "rateLimits (currentStore w) sender = Some (before @ ts # after) \<and>
    RATE_LIMIT_WINDOW_MS \<le> clock (ticks w) - ts \<longrightarrow>
      fst (checkRateLimit clock sender maxPerHour w) =
        Inr (int (length (filter (withinWindow (clock (ticks w))) (before @ after))) < maxPerHour)"
    using checkRateLimit_aged [of w sender before ts after clock maxPerHour] by blast
  have check: "rateLimitEntry (currentStore w) sender \<noteq> Inherited \<longrightarrow>
      fst (checkRateLimit clock sender maxPerHour w) =
        Inr (recentCount (clock (ticks w)) (currentStore w) sender < maxPerHour)"
    by (simp add: checkRateLimit_readable)
  from skip slide check show ?thesis by (simp only: simp_thms)
qed

lemma agedWorld_entry:
  "rateLimits (currentStore agedWorld) ''alice@example.com'' = Some ([] @ 3000000 # [7199000])"
  by (simp add: currentStore_def loadState_def agedWorld_def freshWorld_def emptyStore_def)

theorem rate_limited_sender_skipped_witness:
  "po_maxReplies exampleOpts \<le>
     recentCount (env_clock exampleEnv (ticks limitedWorld)) (currentStore limitedWorld)
       (em_from (po_email exampleOpts)) \<and>
   0 < po_maxReplies exampleOpts \<and>
   fst (processEmail exampleEnv exampleOpts limitedWorld) \<noteq> Inr Forwarded \<and>
   inbound (snd (processEmail exampleEnv exampleOpts limitedWorld)) = [] \<and>
   outbox (snd (processEmail exampleEnv exampleOpts limitedWorld)) = [] \<and>
   ''<m1@example.com>'' \<in>
     set (processedIds (currentStore (snd (processEmail exampleEnv exampleOpts limitedWorld)))) \<and>
   rateLimits (currentStore agedWorld) ''alice@example.com'' = Some ([] @ 3000000 # [7199000]) \<and>
   RATE_LIMIT_WINDOW_MS \<le> exampleClock (ticks agedWorld) - 3000000 \<and>
   rateLimitEntry (currentStore agedWorld) ''alice@example.com'' \<noteq> Inherited \<and>
   fst (checkRateLimit exampleClock ''alice@example.com'' 2 agedWorld) = Inr True \<and>
   fst (checkRateLimit exampleClock ''alice@example.com'' 1 agedWorld) = Inr False \<and>
   recentCount (exampleClock (ticks agedWorld)) (currentStore agedWorld) ''alice@example.com'' = 1"
proof -
  have count: "recentCount (exampleClock 0) (currentStore limitedWorld) ''alice@example.com'' = 1"
    by (simp add: recentCount_def recordedTimestamps_def currentStore_def loadState_def limitedWorld_def
          eval_examples)
  have facts: "em_from (po_email exampleOpts) = ''alice@example.com''" "po_maxReplies exampleOpts = 1"
    "inbound limitedWorld = []" "outbox limitedWorld = []" "ticks limitedWorld = 0"
    "env_clock exampleEnv = exampleClock" "em_messageId (po_email exampleOpts) = ''<m1@example.com>''"
    "ticks agedWorld = 0"
    by (simp_all add: limitedWorld_def agedWorld_def eval_examples)
  have old: "RATE_LIMIT_WINDOW_MS \<le> exampleClock (ticks agedWorld) - 3000000"
    by (simp add: RATE_LIMIT_WINDOW_MS_def exampleClock_def facts)
  have readable: "rateLimitEntry (currentStore agedWorld) ''alice@example.com'' \<noteq> Inherited"
    by (simp add: rateLimitEntry_def agedWorld_entry)
  have aged: "recentCount (exampleClock (ticks agedWorld)) (currentStore agedWorld) ''alice@example.com'' = 1"
    by (simp add: recentCount_def recordedTimestamps_def agedWorld_entry exampleClock_def facts)
  have limited:
    "fst (processEmail exampleEnv exampleOpts limitedWorld) \<noteq> Inr Forwarded \<and>
     inbound (snd (processEmail exampleEnv exampleOpts limitedWorld)) = [] \<and>
     outbox (snd (processEmail exampleEnv exampleOpts limitedWorld)) = [] \<and>
     ''<m1@example.com>'' \<in>
       set (processedIds (currentStore (snd (processEmail exampleEnv exampleOpts limitedWorld))))"
    using rate_limited_sender_skipped
      [of exampleOpts exampleEnv limitedWorld "''alice@example.com''" "[]" 0 "[]" exampleClock 1]
      count
    by (simp add: facts)
  have two: "fst (checkRateLimit exampleClock ''alice@example.com'' 2 agedWorld) = Inr True"
    using rate_limited_sender_skipped
      [of exampleOpts exampleEnv agedWorld "''alice@example.com''" "[]" 3000000 "[7199000]" exampleClock 2]
      agedWorld_entry old
    by (simp add: withinWindow_eq exampleClock_def facts)
  have one: "fst (checkRateLimit exampleClock ''alice@example.com'' 1 agedWorld) = Inr False"
    using rate_limited_sender_skipped
      [of exampleOpts exampleEnv agedWorld "''alice@example.com''" "[]" 3000000 "[7199000]" exampleClock 1]
      readable aged
    by simp
  from limited two one old readable aged agedWorld_entry count show ?thesis
    by (simp add: facts)
qed

lemma processEmail_responder_returned:
  assumes "filterVerdict (env_clock e (ticks w)) opts (currentStore w) = Forwarded"
    and "rateLimitEntry (currentStore w) (em_from (po_email opts)) \<noteq> Inherited"
    and "fst (responderRun e opts w) = None"
  shows "em_messageId (po_email opts) \<in> set (processedIds (currentStore (snd (processEmail e opts w))))"
proof -
  obtain w4 where run: "responderRun e opts w = (None, w4)"
    using assms(3) by (cases "responderRun e opts w") simp
  have "processEmail e opts w = consumeMessage e opts Forwarded w4"
    using run by (simp add: processEmail_forwarded [OF assms(1,2)] responderRun_def forwardingWorld_def)
  then show ?thesis
    by (simp add: consumeMessage_recorded)
qed

lemma sendEmail_examples:
  "fst (sendEmail exampleEnv exampleSend freshWorld) =
     Inr \<lparr>res_ok = True, res_messageId = Some ''<sent@relay>'', res_error = None\<rparr>"
  "fst (sendEmail failingEnv exampleSend freshWorld) =
     Inr \<lparr>res_ok = False, res_messageId = None, res_error = Some ''ECONNREFUSED''\<rparr>"
  by (simp_all add: sendEmail_def sendEmailTry_def sendMail_def errorText_def failingEnv_def
        exampleEnv_def)


section \<open>Properties of fetching\<close>

lemma parseMailToEmail_world:
  "mailbox (snd (parseMailToEmail e parsed uid w)) = mailbox w"
  "imapLog (snd (parseMailToEmail e parsed uid w)) = imapLog w"
  by (simp_all add: parseMailToEmail_def dateNow_def Let_def split_beta split: option.splits)

lemma parseMailToEmail_result:
  "fst (parseMailToEmail e parsed uid w) = None \<longleftrightarrow> senderAddress parsed = []"
  "fst (parseMailToEmail e parsed uid w) = Some em \<Longrightarrow> em_uid em = uid"
  by (auto simp: parseMailToEmail_def dateNow_def Let_def split_beta split: option.splits if_splits)

lemma parseFetched_uids:
  "map em_uid (fst (parseFetched e msgs w)) = map msg_uid (filter yieldsEmail msgs)"
proof (induction msgs arbitrary: w)
  case Nil
  then show ?case by simp
next
  case (Cons m rest)
  show ?case
  proof (cases "msg_parsed m")
    case (Inl err)
    then show ?thesis
      using Cons.IH [of w] by (simp add: yieldsEmail_def)
  next
    case (Inr parsed)
    let ?p = "parseMailToEmail e parsed (msg_uid m) w"
    show ?thesis
    proof (cases "fst ?p")
      case None
      then have "senderAddress parsed = []"
        by (simp add: parseMailToEmail_result)
      then show ?thesis
        using Cons.IH [of "snd ?p"] None Inr by (simp add: yieldsEmail_def split_beta)
    next
      case (Some em)
      then have "senderAddress parsed \<noteq> []" "em_uid em = msg_uid m"
        using parseMailToEmail_result [of e parsed "msg_uid m" w] by auto
      then show ?thesis
        using Cons.IH [of "snd ?p"] Some Inr by (simp add: yieldsEmail_def split_beta)
    qed
  qed
qed

lemma parseFetched_world:
  "mailbox (snd (parseFetched e msgs w)) = mailbox w \<and>
   imapLog (snd (parseFetched e msgs w)) = imapLog w"
proof (induction msgs arbitrary: w)
  case Nil
  then show ?case by simp
next
  case (Cons m rest)
  show ?case
  proof (cases "msg_parsed m")
    case (Inl err)
    then show ?thesis using Cons.IH [of w] by simp
  next
    case (Inr parsed)
    then show ?thesis
      using Cons.IH [of "snd (parseMailToEmail e parsed (msg_uid m) w)"]
      by (simp add: split_beta parseMailToEmail_world)
  qed
qed

lemma fetchFrom_none [simp]: "fetchFrom seqNo [] ms = []"
  by (induction ms arbitrary: seqNo) simp_all

lemma fetchBySequence_log [simp]: "fetchBySequence seqs (logImap ev w) = fetchBySequence seqs w"
  by (simp add: fetchBySequence_def logImap_def)

lemma searchUnseen_log [simp]: "searchUnseen (logImap ev w) = searchUnseen w"
  by (simp add: searchUnseen_def logImap_def)

lemma searchUnseen_eq: "searchUnseen w = map msg_uid (unseenMessages w)"
  by (simp add: searchUnseen_def unseenMessages_def)

lemma fetchUnreadEmails_no_fault:
  assumes "\<forall>k. env_imapFault e k = None"
  shows "\<exists>emails w'. fetchUnreadEmails e folder limit w = (Inr emails, w') \<and>
      map em_uid emails =
        map msg_uid (filter yieldsEmail (fetchBySequence (sliceFrom (- limit) (searchUnseen w)) w)) \<and>
      mailbox w' = mailbox w \<and>
      imapLog w' = imapLog w @ LockAcquired folder # Searched #
        (if searchUnseen w = [] then [] else [Fetched (sliceFrom (- limit) (searchUnseen w))]) @
        [LockReleased folder]"
proof (cases "searchUnseen w = []")
  case True
  then show ?thesis
    using assms
    by (simp add: fetchUnreadEmails_def imapFailure_def Let_def sliceFrom_def fetchBySequence_def)
       (simp add: logImap_def)
next
  case False
  let ?uids = "sliceFrom (- limit) (searchUnseen w)"
  let ?w3 = "logImap (Fetched ?uids) (logImap Searched (logImap (LockAcquired folder) w))"
  let ?p = "parseFetched e (fetchBySequence ?uids w) ?w3"
  have run: "fetchUnreadEmails e folder limit w = (Inr (fst ?p), logImap (LockReleased folder) (snd ?p))"
    using assms False
    by (simp add: fetchUnreadEmails_def imapFailure_def Let_def split_beta)
  have w3: "mailbox ?w3 = mailbox w"
    "imapLog ?w3 = imapLog w @ [LockAcquired folder, Searched, Fetched ?uids]"
    by (simp_all add: logImap_def)
  show ?thesis
    using parseFetched_world [of e "fetchBySequence ?uids w" ?w3] False
    by (simp add: run parseFetched_uids w3) (simp add: logImap_def w3)
qed

lemma fetchFrom_uid_numbered:
  "map msg_uid ms = [seqNo ..< seqNo + length ms] \<Longrightarrow>
   fetchFrom seqNo seqs ms = filter (\<lambda>m. msg_uid m \<in> set seqs) ms"
proof (induction ms arbitrary: seqNo)
  case Nil
  then show ?case by simp
next
  case (Cons m rest)
  from Cons.prems have "msg_uid m # map msg_uid rest = seqNo # [Suc seqNo ..< Suc seqNo + length rest]"
    by (simp add: upt_rec)
  then have head: "msg_uid m = seqNo" and tail: "map msg_uid rest = [Suc seqNo ..< Suc seqNo + length rest]"
    by simp_all
  show ?case
    using Cons.IH [OF tail] head by simp
qed

lemmas eval_folder =
  shiftedFolder_def freshWorld_def mailFrom_def searchUnseen_def fetchBySequence_def sliceFrom_def
  unseenMessages_def yieldsEmail_def senderAddress_def extractEmailAddress_def orElse_def
  trim_def isWhiteSpace_def toLowerCase_def toLowerChar_def char_of_def bit_Suc_0_iff bit_0

lemma exampleEnv_no_fault: "\<forall>k. env_imapFault exampleEnv k = None"
  by (simp add: exampleEnv_def)

lemma fetchUnreadEmails_lock:
  "\<exists>evs. imapLog (snd (fetchUnreadEmails e folder limit w)) = imapLog w @ evs \<and> lockScoped folder evs"
proof (cases "imapFailure e w")
  case (Some err)
  then show ?thesis
    by (simp add: fetchUnreadEmails_def lockScoped_def)
next
  case None
  note n0 = None
  let ?w1 = "logImap (LockAcquired folder) w"
  show ?thesis
  proof (cases "imapFailure e ?w1")
    case (Some err)
    then have "imapLog (snd (fetchUnreadEmails e folder limit w)) =
                 imapLog w @ [LockAcquired folder, LockReleased folder]"
      using n0 by (simp add: fetchUnreadEmails_def Let_def logImap_def)
    then show ?thesis
      by (simp add: lockScoped_def)
  next
    case None
    note n1 = None
    let ?w2 = "logImap Searched ?w1"
    show ?thesis
    proof (cases "searchUnseen w = []")
      case True
      then have "imapLog (snd (fetchUnreadEmails e folder limit w)) =
                 imapLog w @ [LockAcquired folder, Searched, LockReleased folder]"
        using n0 n1 by (simp add: fetchUnreadEmails_def Let_def) (simp add: logImap_def)
      then show ?thesis
        by (simp add: lockScoped_def)
    next
      case False
      note ne = False
      show ?thesis
      proof (cases "imapFailure e ?w2")
        case (Some err)
        then have "imapLog (snd (fetchUnreadEmails e folder limit w)) =
                 imapLog w @ [LockAcquired folder, Searched, LockReleased folder]"
          using n0 n1 ne by (simp add: fetchUnreadEmails_def Let_def) (simp add: logImap_def)
        then show ?thesis
          by (simp add: lockScoped_def)
      next
        case None
        let ?uids = "sliceFrom (- limit) (searchUnseen w)"
        let ?w3 = "logImap (Fetched ?uids) ?w2"
        have "imapLog (snd (fetchUnreadEmails e folder limit w)) =
                imapLog (snd (parseFetched e (fetchBySequence ?uids w) ?w3)) @ [LockReleased folder]"
          using n0 n1 ne None
          by (simp add: fetchUnreadEmails_def Let_def split_beta) (simp add: logImap_def)
        then have "imapLog (snd (fetchUnreadEmails e folder limit w)) =
                 imapLog w @ [LockAcquired folder, Searched, Fetched ?uids, LockReleased folder]"
          using parseFetched_world [of e "fetchBySequence ?uids w" ?w3] by (simp add: logImap_def)
        then show ?thesis
          by (simp add: lockScoped_def)
      qed
    qed
  qed
qed

text \<open>
  C7. \<open>fetchUnreadEmails\<close> searches the unseen messages by UID and then fetches the
  found UIDs as sequence numbers. In a folder whose first message has been removed, the
  messages with the UIDs 3 and 5 are unseen; the messages returned are those at the
  positions 3 and 5 of the folder, which have the UIDs 4 and 6 and are both seen, in the
  order of the folder. Neither of the unseen messages is returned.
\<close>

theorem fetchUnreadEmails_fetches_by_sequence_number:
  "map msg_uid (mailbox shiftedFolder) = [2, 3, 4, 5, 6] \<and>
   map msg_uid (unseenMessages shiftedFolder) = [3, 5] \<and>
   searchUnseen shiftedFolder = [3, 5] \<and>
   map msg_uid (fetchBySequence [3, 5] shiftedFolder) = [4, 6] \<and>
   map msg_seen (fetchBySequence [3, 5] shiftedFolder) = [True, True] \<and>
   map_sum id (map em_uid) (fst (fetchUnreadEmails exampleEnv ''INBOX'' 20 shiftedFolder)) = Inr [4, 6]"
proof -
  have folder: "map msg_uid (mailbox shiftedFolder) = [2, 3, 4, 5, 6]"
    "map msg_uid (unseenMessages shiftedFolder) = [3, 5]"
    "searchUnseen shiftedFolder = [3, 5]"
    by (simp_all add: shiftedFolder_def freshWorld_def unseenMessages_def searchUnseen_def)
  have fetched: "map msg_uid (fetchBySequence [3, 5] shiftedFolder) = [4, 6]"
    "map msg_seen (fetchBySequence [3, 5] shiftedFolder) = [True, True]"
    by (simp_all add: shiftedFolder_def freshWorld_def fetchBySequence_def)
  have parsed: "map msg_uid (filter yieldsEmail
               (fetchBySequence (sliceFrom (- 20) (searchUnseen shiftedFolder)) shiftedFolder)) = [4, 6]"
    by (simp add: eval_folder)
  from fetchUnreadEmails_no_fault [OF exampleEnv_no_fault, of "''INBOX''" 20 shiftedFolder]
  have run: "map_sum id (map em_uid) (fst (fetchUnreadEmails exampleEnv ''INBOX'' 20 shiftedFolder)) = Inr [4, 6]"
    by (auto simp: parsed)
  from folder fetched run show ?thesis
    by simp
qed

end
